theory Spec2Isabelle
  imports Main "HOL-Library.AList"
begin

section \<open>Data model\<close>

text \<open>
  The script manager of \<^verbatim>\<open>src/ScriptManager.h\<close> keeps two hash maps: the loaded
  modules, keyed by module name, and the function cache, which maps an event name to the
  vector of modules known to define a function of that name. Both are modelled as
  association lists: lookup is \<open>map_of\<close>, the assignment \<^verbatim>\<open>m[k] = v\<close> is
  \<open>AList.update\<close> (in place for a known key, at the end for a new one), and a range-for
  over the container is a recursion over the list. The traversal order of an
  \<^verbatim>\<open>unordered_map\<close> is unspecified; the list order stands for it.
\<close>

text \<open>
  A Python exception as the catch blocks see it: the text of \<^verbatim>\<open>e.what()\<close> and the
  traceback that \<^verbatim>\<open>PyErr_Fetch\<close> hands back, if any.
\<close>

record py_error =
  what :: string
  traceback :: "string option"

text \<open>
  Modelled from the spec: \<^verbatim>\<open>Models/ScriptModule.h\<close> is not part of the sources at hand.
  The constructor call in \<^verbatim>\<open>load_script\<close> and the accessors \<^verbatim>\<open>name()\<close> and
  \<^verbatim>\<open>script_module()\<close> used by the manager agree with the spec's Module Record: a
  logical name, the handle of the imported module, the absolute and the relative path.
  The handle type \<open>'h\<close> is opaque, the attributes behind it live in the interpreter.
  The manager never changes a record once it is built, so a \<^verbatim>\<open>shared_ptr\<close> to a
  record is modelled by the record. Two loads of one file build two objects in the
  program and two equal records here.
\<close>

record 'h ScriptModule =
  name :: string
  script_module :: 'h
  absolute_path :: string
  relative_path :: string

text \<open>
  The calls into \<^verbatim>\<open>std::filesystem\<close>. \<open>fs_relative\<close> is
  \<^verbatim>\<open>relative(p, current_path())\<close>, \<open>fs_in_current_path\<close> is \<^verbatim>\<open>current_path() / p\<close>, and
  \<open>fs_recursive_directory\<close> lists the entries a \<^verbatim>\<open>recursive_directory_iterator\<close> yields.
\<close>

record filesystem =
  fs_absolute :: "string \<Rightarrow> string"
  fs_relative :: "string \<Rightarrow> string"
  fs_parent_path :: "string \<Rightarrow> string"
  fs_stem :: "string \<Rightarrow> string"
  fs_in_current_path :: "string \<Rightarrow> string"
  fs_exists :: "string \<Rightarrow> bool"
  fs_is_directory :: "string \<Rightarrow> bool"
  fs_recursive_directory :: "string \<Rightarrow> string list"
  fs_is_regular_file :: "string \<Rightarrow> bool"
  fs_extension :: "string \<Rightarrow> string"

text \<open>
  The calls into the embedded interpreter (pybind11). \<open>'rt\<close> is the interpreter's own
  state (its module table, the module namespaces, \<^verbatim>\<open>sys.path\<close>), \<open>'a\<close> the forwarded
  argument pack. Every call that can throw \<^verbatim>\<open>py::error_already_set\<close> returns the error as a
  value together with the interpreter state it leaves behind; \<^verbatim>\<open>py::hasattr\<close> never throws.
  \<open>py_reload\<close> is \<^verbatim>\<open>module_::reload()\<close>: it re-executes the module and keeps the handle.
\<close>

record ('h, 'a, 'rt) python =
  sys_path_append :: "string \<Rightarrow> 'rt \<Rightarrow> py_error option \<times> 'rt"
  py_import :: "string \<Rightarrow> 'rt \<Rightarrow> (py_error + 'h) \<times> 'rt"
  py_reload :: "'h \<Rightarrow> 'rt \<Rightarrow> py_error option \<times> 'rt"
  py_hasattr :: "'rt \<Rightarrow> 'h \<Rightarrow> string \<Rightarrow> bool"
  py_call :: "'h \<Rightarrow> string \<Rightarrow> 'a \<Rightarrow> 'rt \<Rightarrow> py_error option \<times> 'rt"

text \<open>
  The manager's members \<^verbatim>\<open>module_path_\<close>, \<^verbatim>\<open>loaded_modules_\<close> and
  \<^verbatim>\<open>module_function_cache_\<close>, the interpreter state, and the messages handed to
  \<^verbatim>\<open>logger_\<close>. Two fields are instrumentation and are never read by an operation:
  \<open>calls\<close> records every handler invocation (module record and function name) in order,
  \<open>scans\<close> counts the traversals of \<^verbatim>\<open>loaded_modules_\<close> made by \<^verbatim>\<open>dispatch_event\<close>.
\<close>

record ('h, 'rt) state =
  module_path :: string
  loaded_modules :: "(string \<times> 'h ScriptModule) list"
  module_function_cache :: "(string \<times> 'h ScriptModule list) list"
  runtime :: 'rt
  logger :: "string list"
  calls :: "('h ScriptModule \<times> string) list"
  scans :: nat

definition initial :: "'rt \<Rightarrow> ('h, 'rt) state" where
  "initial rt = \<lparr>module_path = [], loaded_modules = [], module_function_cache = [],
     runtime = rt, logger = [], calls = [], scans = 0\<rparr>"

section \<open>Operations\<close>

text \<open>
  Modelled from the spec: \<^verbatim>\<open>Logger.h\<close> is not part of the sources at hand. The
  spec's logger is a single sink taking a free-form textual message; the arguments of a
  \<^verbatim>\<open>logger_.log_message\<close> call are taken as one message, in order.
\<close>

definition log_message :: "string \<Rightarrow> ('h, 'rt) state \<Rightarrow> ('h, 'rt) state" where
  "log_message msg s = s\<lparr>logger := logger s @ [msg]\<rparr>"

text \<open>
  The three catch blocks are the same code up to the message: log the message with
  \<^verbatim>\<open>e.what()\<close>, then the traceback if there is one.
\<close>

definition catch_error :: "string \<Rightarrow> py_error \<Rightarrow> ('h, 'rt) state \<Rightarrow> ('h, 'rt) state" where
  "catch_error msg e s =
     (let s1 = log_message (msg @ what e) s in
      case traceback e of
        None \<Rightarrow> s1
      | Some tb \<Rightarrow> log_message (''Trace:\<newline>'' @ tb) s1)"

definition set_module_path :: "string \<Rightarrow> ('h, 'rt) state \<Rightarrow> ('h, 'rt) state" where
  "set_module_path path s = s\<lparr>module_path := path\<rparr>"

text \<open>
  The loop shared by \<^verbatim>\<open>load_script\<close> and \<^verbatim>\<open>reload_script\<close>: every cache entry
  whose function name the module has as an attribute gets the record pushed at its back.
\<close>

fun add_to_function_cache ::
  "('h, 'a, 'rt) python \<Rightarrow> 'rt \<Rightarrow> 'h ScriptModule \<Rightarrow>
   (string \<times> 'h ScriptModule list) list \<Rightarrow> (string \<times> 'h ScriptModule list) list" where
  "add_to_function_cache py rt script [] = []"
| "add_to_function_cache py rt script ((function_name, modules) # cache) =
     (function_name,
      if py_hasattr py rt (script_module script) function_name then modules @ [script]
      else modules)
     # add_to_function_cache py rt script cache"

definition load_script ::
  "filesystem \<Rightarrow> ('h, 'a, 'rt) python \<Rightarrow> string \<Rightarrow> ('h, 'rt) state \<Rightarrow> ('h, 'rt) state" where
  "load_script fs py path s =
     (let absolute_path = fs_absolute fs path;
          relative_path = fs_relative fs absolute_path;
          absolute_dir = fs_absolute fs (fs_parent_path fs path);
          module_name = fs_stem fs relative_path
      in case sys_path_append py absolute_dir (runtime s) of
           (Some e, rt1) \<Rightarrow>
             catch_error ''ScriptManager::load_script - Script Error.\<newline>'' e
               (s\<lparr>runtime := rt1\<rparr>)
         | (None, rt1) \<Rightarrow>
             (case py_import py module_name rt1 of
                (Inl e, rt2) \<Rightarrow>
                  catch_error ''ScriptManager::load_script - Script Error.\<newline>'' e
                    (s\<lparr>runtime := rt2\<rparr>)
              | (Inr module, rt2) \<Rightarrow>
                  (let script = \<lparr>name = module_name, script_module = module,
                                 absolute_path = absolute_path,
                                 relative_path = relative_path\<rparr>
                   in log_message
                        (''ScriptManager::load_script - Script Module Loaded: '' @ module_name)
                        (s\<lparr>runtime := rt2,
                           loaded_modules := AList.update module_name script (loaded_modules s),
                           module_function_cache :=
                             add_to_function_cache py rt2 script (module_function_cache s)\<rparr>))))"

text \<open>
  \<^verbatim>\<open>std::find_if\<close> on the module name followed by \<^verbatim>\<open>erase\<close> of the iterator found:
  the first record of that name goes, later ones stay.
\<close>

fun erase_found :: "string \<Rightarrow> 'h ScriptModule list \<Rightarrow> 'h ScriptModule list" where
  "erase_found n [] = []"
| "erase_found n (module # modules) =
     (if name module = n then modules else module # erase_found n modules)"

fun remove_from_function_cache ::
  "string \<Rightarrow> (string \<times> 'h ScriptModule list) list \<Rightarrow> (string \<times> 'h ScriptModule list) list" where
  "remove_from_function_cache n [] = []"
| "remove_from_function_cache n ((function_name, modules) # cache) =
     (function_name, erase_found n modules) # remove_from_function_cache n cache"

definition reload_script ::
  "('h, 'a, 'rt) python \<Rightarrow> string \<Rightarrow> ('h, 'rt) state \<Rightarrow> ('h, 'rt) state" where
  "reload_script py module_name s =
     (case map_of (loaded_modules s) module_name of
        None \<Rightarrow> log_message ''ScriptManager::reload_script - Error: Script not loaded.'' s
      | Some script \<Rightarrow>
          (let s1 = s\<lparr>module_function_cache :=
                        remove_from_function_cache (name script) (module_function_cache s)\<rparr>
           in case py_reload py (script_module script) (runtime s1) of
                (Some e, rt1) \<Rightarrow>
                  catch_error ''ScriptManager::reload_script - Error.\<newline>'' e
                    (s1\<lparr>runtime := rt1\<rparr>)
              | (None, rt1) \<Rightarrow>
                  log_message (''ScriptManager::reload_script - Reloaded Module: '' @ module_name)
                    (s1\<lparr>runtime := rt1,
                        module_function_cache :=
                          add_to_function_cache py rt1 script (module_function_cache s1)\<rparr>)))"

fun load_each ::
  "filesystem \<Rightarrow> ('h, 'a, 'rt) python \<Rightarrow> string list \<Rightarrow> ('h, 'rt) state \<Rightarrow> ('h, 'rt) state" where
  "load_each fs py [] s = s"
| "load_each fs py (module # rest) s =
     (if \<not> fs_is_regular_file fs module then load_each fs py rest s
      else if fs_extension fs module \<noteq> ''.py'' then load_each fs py rest s
      else load_each fs py rest (load_script fs py module s))"

definition load_scripts ::
  "filesystem \<Rightarrow> ('h, 'a, 'rt) python \<Rightarrow> string \<Rightarrow> ('h, 'rt) state \<Rightarrow> ('h, 'rt) state" where
  "load_scripts fs py path s =
     (let dir = (if path = [] then fs_in_current_path fs (module_path s)
                 else fs_in_current_path fs path)
      in if \<not> fs_exists fs dir \<or> \<not> fs_is_directory fs dir
         then log_message (''ScriptManager::load_scripts: directory not found - '' @ dir) s
         else load_each fs py (fs_recursive_directory fs dir) s)"

subsection \<open>Dispatch\<close>

text \<open>
  One iteration of the loop of the cache-hit branch, for the record \<open>cached_module\<close>.
  The handler runs inside the \<^verbatim>\<open>try\<close>; what it throws is logged and swallowed.

  A handler is script code and may call back into the manager through the public
  wrappers while it runs. \<open>reenter\<close> is that callback as a change of the manager's state;
  it runs after the handler's own effect on the interpreter and before the handler
  returns or throws. \<^verbatim>\<open>dispatch_event\<close> below is the dispatch without callbacks.
\<close>

definition call_cached ::
  "('h, 'a, 'rt) python \<Rightarrow> ('h ScriptModule \<Rightarrow> ('h, 'rt) state \<Rightarrow> ('h, 'rt) state) \<Rightarrow>
   string \<Rightarrow> 'a \<Rightarrow> 'h ScriptModule \<Rightarrow> ('h, 'rt) state \<Rightarrow> ('h, 'rt) state" where
  "call_cached py reenter event_key_name args cached_module s =
     (if py_hasattr py (runtime s) (script_module cached_module) event_key_name then
        (let s1 = log_message
                    (''ScriptManager::dispatch_event - Dispatching cached event: ''
                       @ event_key_name) s;
             (result, rt1) = py_call py (script_module cached_module) event_key_name args
                               (runtime s1);
             s2 = reenter cached_module
                    (s1\<lparr>runtime := rt1, calls := calls s1 @ [(cached_module, event_key_name)]\<rparr>)
         in case result of
              None \<Rightarrow> s2
            | Some e \<Rightarrow>
                catch_error ''ScriptManager::dispatch_event - Script Error.\<newline>'' e s2)
      else s)"

text \<open>
  The loop of the cache-hit branch. It runs over \<open>cached_function_modules\<close>, the copy of
  the cache entry that the branch takes before the first iteration.
\<close>

fun dispatch_cached ::
  "('h, 'a, 'rt) python \<Rightarrow> ('h ScriptModule \<Rightarrow> ('h, 'rt) state \<Rightarrow> ('h, 'rt) state) \<Rightarrow>
   string \<Rightarrow> 'a \<Rightarrow> 'h ScriptModule list \<Rightarrow> ('h, 'rt) state \<Rightarrow> ('h, 'rt) state" where
  "dispatch_cached py reenter event_key_name args [] s = s"
| "dispatch_cached py reenter event_key_name args (cached_module # rest) s =
     dispatch_cached py reenter event_key_name args rest
       (call_cached py reenter event_key_name args cached_module s)"

text \<open>
  One iteration of the loop of the cache-miss branch. \<^verbatim>\<open>valid_modules.push_back\<close> is
  the statement after the call inside the \<^verbatim>\<open>try\<close>, so it is reached only when the
  handler returns. This branch iterates over \<^verbatim>\<open>loaded_modules_\<close> itself, not over a
  copy, and a callback that loads a new module would invalidate the iterator; callbacks
  are therefore modelled in the cache-hit branch only.
\<close>

definition call_loaded ::
  "('h, 'a, 'rt) python \<Rightarrow> string \<Rightarrow> 'a \<Rightarrow> 'h ScriptModule \<Rightarrow>
   'h ScriptModule list \<times> ('h, 'rt) state \<Rightarrow> 'h ScriptModule list \<times> ('h, 'rt) state" where
  "call_loaded py event_key_name args script acc =
     (case acc of (valid_modules, s) \<Rightarrow>
        if py_hasattr py (runtime s) (script_module script) event_key_name then
          (let s1 = log_message
                      (''ScriptManager::dispatch_event - Dispatching event: ''
                         @ event_key_name) s;
               (result, rt1) = py_call py (script_module script) event_key_name args
                                 (runtime s1);
               s2 = s1\<lparr>runtime := rt1, calls := calls s1 @ [(script, event_key_name)]\<rparr>
           in case result of
                None \<Rightarrow> (valid_modules @ [script], s2)
              | Some e \<Rightarrow>
                  (valid_modules,
                   catch_error ''ScriptManager::dispatch_event - Script Error.\<newline>'' e s2))
        else (valid_modules, s))"

fun scan_loaded ::
  "('h, 'a, 'rt) python \<Rightarrow> string \<Rightarrow> 'a \<Rightarrow> (string \<times> 'h ScriptModule) list \<Rightarrow>
   'h ScriptModule list \<times> ('h, 'rt) state \<Rightarrow> 'h ScriptModule list \<times> ('h, 'rt) state" where
  "scan_loaded py event_key_name args [] acc = acc"
| "scan_loaded py event_key_name args (loaded_script # rest) acc =
     scan_loaded py event_key_name args rest
       (call_loaded py event_key_name args (snd loaded_script) acc)"

definition dispatch_event ::
  "('h, 'a, 'rt) python \<Rightarrow> string \<Rightarrow> 'a \<Rightarrow> ('h, 'rt) state \<Rightarrow> ('h, 'rt) state" where
  "dispatch_event py event_key_name args s =
     (case map_of (module_function_cache s) event_key_name of
        Some cached_function_modules \<Rightarrow>
          dispatch_cached py (\<lambda>_ s'. s') event_key_name args cached_function_modules s
      | None \<Rightarrow>
          (case scan_loaded py event_key_name args (loaded_modules s)
                  ([], s\<lparr>scans := Suc (scans s)\<rparr>) of
             (valid_modules, s1) \<Rightarrow>
               if valid_modules \<noteq> [] then
                 (log_message
                    (''ScriptManager::dispatch_event - Creating function cache for event: ''
                       @ event_key_name) s1)
                 \<lparr>module_function_cache :=
                    AList.update event_key_name valid_modules (module_function_cache s1)\<rparr>
               else s1))"

section \<open>Sessions of host calls\<close>

text \<open>
  The public operations as values, so that a run of the host is a list of calls applied
  to the initial state. Each call carries the filesystem and the interpreter it meets:
  files are edited and modules change between calls.
\<close>

datatype ('h, 'a, 'rt) host_call =
    Set_module_path string
  | Load_script filesystem "('h, 'a, 'rt) python" string
  | Load_scripts filesystem "('h, 'a, 'rt) python" string
  | Reload_script "('h, 'a, 'rt) python" string
  | Dispatch_event "('h, 'a, 'rt) python" string 'a

fun perform :: "('h, 'a, 'rt) host_call \<Rightarrow> ('h, 'rt) state \<Rightarrow> ('h, 'rt) state" where
  "perform (Set_module_path path) s = set_module_path path s"
| "perform (Load_script fs py path) s = load_script fs py path s"
| "perform (Load_scripts fs py path) s = load_scripts fs py path s"
| "perform (Reload_script py module_name) s = reload_script py module_name s"
| "perform (Dispatch_event py event_key_name args) s = dispatch_event py event_key_name args s"

fun perform_all :: "('h, 'a, 'rt) host_call list \<Rightarrow> ('h, 'rt) state \<Rightarrow> ('h, 'rt) state" where
  "perform_all [] s = s"
| "perform_all (c # cs) s = perform_all cs (perform c s)"

section \<open>Notions used to state the properties\<close>

text \<open>
  Every loaded module is stored under its own name, and every record in a cache entry
  bears the name of a loaded module.
\<close>

definition cache_in_registry :: "('h, 'rt) state \<Rightarrow> bool" where
  "cache_in_registry s \<longleftrightarrow>
     (\<forall>(k, script) \<in> set (loaded_modules s). name script = k) \<and>
     (\<forall>(E, modules) \<in> set (module_function_cache s).
        \<forall>m \<in> set modules. name m \<in> fst ` set (loaded_modules s))"

text \<open>
  No two loaded modules share a key, and no cache entry holds two records of one name.
\<close>

definition names_once :: "('h, 'rt) state \<Rightarrow> bool" where
  "names_once s \<longleftrightarrow>
     distinct (map fst (loaded_modules s)) \<and>
     (\<forall>(E, modules) \<in> set (module_function_cache s). distinct (map name modules))"

text \<open>
  The same interpreter, except that no handler throws: each call has the effect on the
  interpreter it had, and returns.
\<close>

definition never_raising :: "('h, 'a, 'rt) python \<Rightarrow> ('h, 'a, 'rt) python" where
  "never_raising py = py\<lparr>py_call := (\<lambda>h e a rt. (None, snd (py_call py h e a rt)))\<rparr>"

text \<open>
  The records a dispatch of \<open>E\<close> goes through: the cache entry on a hit, all loaded
  modules on a miss.
\<close>

definition candidates :: "('h, 'rt) state \<Rightarrow> string \<Rightarrow> 'h ScriptModule list" where
  "candidates s E =
     (case map_of (module_function_cache s) E of
        Some cached \<Rightarrow> cached
      | None \<Rightarrow> map snd (loaded_modules s))"

text \<open>
  What the claim of isolation asks of a dispatch, written without the manager: go
  through the records in order, and call the handler of each record whose module has
  the function when it is reached, whatever the calls before it returned or threw.
  \<open>run_handlers\<close> is the interpreter state this leaves, \<open>handlers_reached\<close> the records
  whose handler is called.
\<close>

fun run_handlers ::
  "('h, 'a, 'rt) python \<Rightarrow> string \<Rightarrow> 'a \<Rightarrow> 'h ScriptModule list \<Rightarrow> 'rt \<Rightarrow> 'rt" where
  "run_handlers py E a [] rt = rt"
| "run_handlers py E a (m # ms) rt =
     run_handlers py E a ms
       (if py_hasattr py rt (script_module m) E
        then snd (py_call py (script_module m) E a rt) else rt)"

fun handlers_reached ::
  "('h, 'a, 'rt) python \<Rightarrow> string \<Rightarrow> 'a \<Rightarrow> 'h ScriptModule list \<Rightarrow> 'rt \<Rightarrow> 'h ScriptModule list" where
  "handlers_reached py E a [] rt = []"
| "handlers_reached py E a (m # ms) rt =
     (if py_hasattr py rt (script_module m) E
      then m # handlers_reached py E a ms (snd (py_call py (script_module m) E a rt))
      else handlers_reached py E a ms rt)"

text \<open>Two states that differ at most in the function cache.\<close>

definition same_but_cache :: "('h, 'rt) state \<Rightarrow> ('h, 'rt) state \<Rightarrow> bool" where
  "same_but_cache s t \<longleftrightarrow>
     module_path s = module_path t \<and> loaded_modules s = loaded_modules t \<and>
     runtime s = runtime t \<and> logger s = logger t \<and> calls s = calls t \<and> scans s = scans t"

section \<open>A small interpreter and filesystem for concrete runs\<close>

text \<open>
  The host's working directory is \<^verbatim>\<open>/srv\<close> and the scripts live in
  \<^verbatim>\<open>/srv/scripts\<close>. The interpreter's state is its module table: module name to
  namespace, a namespace being a list of function names, each with a flag telling
  whether the function throws when called. A module's handle is its name. \<open>files\<close>
  gives what each script file on disk holds when it is executed: a namespace, or
  \<open>None\<close> for a file that does not compile. Importing a module that is already in the
  module table returns it as it is, as Python does.
\<close>

definition base_name :: "string \<Rightarrow> string" where
  "base_name p = rev (takeWhile (\<lambda>c. c \<noteq> CHR ''/'') (rev p))"

definition demo_fs :: "string list \<Rightarrow> filesystem" where
  "demo_fs files =
     \<lparr>fs_absolute = (\<lambda>p. if take 1 p = ''/'' then p else ''/srv/'' @ p),
      fs_relative = drop 5,
      fs_parent_path = (\<lambda>p. rev (drop 1 (dropWhile (\<lambda>c. c \<noteq> CHR ''/'') (rev p)))),
      fs_stem = (\<lambda>p. takeWhile (\<lambda>c. c \<noteq> CHR ''.'') (base_name p)),
      fs_in_current_path = (\<lambda>p. ''/srv/'' @ p),
      fs_exists = (\<lambda>p. p = ''/srv/scripts''),
      fs_is_directory = (\<lambda>p. p = ''/srv/scripts''),
      fs_recursive_directory = (\<lambda>p. files),
      fs_is_regular_file = (\<lambda>p. True),
      fs_extension = (\<lambda>p. dropWhile (\<lambda>c. c \<noteq> CHR ''.'') (base_name p))\<rparr>"

type_synonym demo_rt = "(string \<times> (string \<times> bool) list) list"

definition demo_error :: "string \<Rightarrow> py_error" where
  "demo_error msg = \<lparr>what = msg, traceback = None\<rparr>"

definition demo_py ::
  "(string \<times> (string \<times> bool) list option) list \<Rightarrow> (string, nat, demo_rt) python" where
  "demo_py files =
     \<lparr>sys_path_append = (\<lambda>dir rt. (None, rt)),
      py_import = (\<lambda>n rt.
        case map_of rt n of
          Some ns \<Rightarrow> (Inr n, rt)
        | None \<Rightarrow>
            (case map_of files n of
               Some (Some ns) \<Rightarrow> (Inr n, AList.update n ns rt)
             | Some None \<Rightarrow> (Inl (demo_error ''SyntaxError''), rt)
             | None \<Rightarrow> (Inl (demo_error ''ModuleNotFoundError''), rt))),
      py_reload = (\<lambda>h rt.
        case map_of files h of
          Some (Some ns) \<Rightarrow> (None, AList.update h ns rt)
        | Some None \<Rightarrow> (Some (demo_error ''SyntaxError''), rt)
        | None \<Rightarrow> (Some (demo_error ''ModuleNotFoundError''), rt)),
      py_hasattr = (\<lambda>rt h e.
        case map_of rt h of
          Some ns \<Rightarrow> (case map_of ns e of Some raises \<Rightarrow> True | None \<Rightarrow> False)
        | None \<Rightarrow> False),
      py_call = (\<lambda>h e a rt.
        case map_of rt h of
          Some ns \<Rightarrow>
            (case map_of ns e of
               Some True \<Rightarrow> (Some (demo_error ''RuntimeError''), rt)
             | Some False \<Rightarrow> (None, rt)
             | None \<Rightarrow> (Some (demo_error ''AttributeError''), rt))
        | None \<Rightarrow> (Some (demo_error ''AttributeError''), rt))\<rparr>"

definition demo_files :: "string list" where
  "demo_files = [''/srv/scripts/a.py'', ''/srv/scripts/b.py'', ''/srv/scripts/notes.txt'']"

definition script_a :: "string ScriptModule" where
  "script_a = \<lparr>name = ''a'', script_module = ''a'',
     absolute_path = ''/srv/scripts/a.py'', relative_path = ''scripts/a.py''\<rparr>"

definition script_b :: "string ScriptModule" where
  "script_b = \<lparr>name = ''b'', script_module = ''b'',
     absolute_path = ''/srv/scripts/b.py'', relative_path = ''scripts/b.py''\<rparr>"

text \<open>
  The scripts as first written: both define \<^verbatim>\<open>on_tick\<close>, \<^verbatim>\<open>b\<close> also
  \<^verbatim>\<open>on_join\<close>. Then three edits of \<^verbatim>\<open>a.py\<close>: its \<^verbatim>\<open>on_tick\<close> throws; its
  \<^verbatim>\<open>on_tick\<close> is replaced by \<^verbatim>\<open>on_join\<close>; it no longer compiles. And a file
  \<^verbatim>\<open>c.py\<close> that does not compile.
\<close>

definition py_ok :: "(string, nat, demo_rt) python" where
  "py_ok = demo_py [(''a'', Some [(''on_tick'', False)]),
                    (''b'', Some [(''on_tick'', False), (''on_join'', False)])]"

definition py_a_raises :: "(string, nat, demo_rt) python" where
  "py_a_raises = demo_py [(''a'', Some [(''on_tick'', True)]),
                          (''b'', Some [(''on_tick'', False)])]"

definition py_a_edited :: "(string, nat, demo_rt) python" where
  "py_a_edited = demo_py [(''a'', Some [(''on_join'', False)]),
                          (''b'', Some [(''on_tick'', False), (''on_join'', False)])]"

definition py_a_broken :: "(string, nat, demo_rt) python" where
  "py_a_broken = demo_py [(''a'', None),
                          (''b'', Some [(''on_tick'', False), (''on_join'', False)])]"

definition py_c_broken :: "(string, nat, demo_rt) python" where
  "py_c_broken = demo_py [(''c'', None)]"

definition both_loaded :: "(string, nat, demo_rt) host_call list" where
  "both_loaded = [Load_script (demo_fs demo_files) py_ok ''scripts/a.py'',
                  Load_script (demo_fs demo_files) py_ok ''scripts/b.py'']"

definition tick_resolved :: "(string, nat, demo_rt) host_call list" where
  "tick_resolved = both_loaded @ [Dispatch_event py_ok ''on_tick'' 7]"

definition tick_emptied :: "(string, nat, demo_rt) host_call list" where
  "tick_emptied = [Load_script (demo_fs demo_files) py_ok ''scripts/a.py'',
                   Dispatch_event py_ok ''on_tick'' 7,
                   Reload_script py_a_edited ''a'']"

definition a_raises_loaded :: "(string, nat, demo_rt) host_call list" where
  "a_raises_loaded = [Load_script (demo_fs demo_files) py_a_raises ''scripts/a.py'',
                      Load_script (demo_fs demo_files) py_a_raises ''scripts/b.py'']"

text \<open>The handler of \<^verbatim>\<open>a\<close> calls \<^verbatim>\<open>reload_script("a")\<close> while it runs.\<close>

definition handler_reloads_a ::
  "string ScriptModule \<Rightarrow> (string, demo_rt) state \<Rightarrow> (string, demo_rt) state" where
  "handler_reloads_a m s = (if name m = ''a'' then reload_script py_ok ''a'' s else s)"

text \<open>
  The record built when a second file of the same stem, \<^verbatim>\<open>scripts/sub/a.py\<close>, is
  loaded while module \<^verbatim>\<open>a\<close> is already imported.
\<close>

definition script_a_sub :: "string ScriptModule" where
  "script_a_sub = \<lparr>name = ''a'', script_module = ''a'',
     absolute_path = ''/srv/scripts/sub/a.py'', relative_path = ''scripts/sub/a.py''\<rparr>"

text \<open>
  A second interpreter, whose state is the list of the modules whose \<^verbatim>\<open>on_tick\<close> has
  run, in order. Every module has an \<^verbatim>\<open>on_tick\<close>; the handlers of the modules in
  \<open>raising\<close> throw after they have run.
\<close>

definition tracing_py :: "string list \<Rightarrow> (string, nat, string list) python" where
  "tracing_py raising =
     \<lparr>sys_path_append = (\<lambda>dir rt. (None, rt)),
      py_import = (\<lambda>n rt. (Inr n, rt)),
      py_reload = (\<lambda>h rt. (None, rt)),
      py_hasattr = (\<lambda>rt h e. e = ''on_tick''),
      py_call = (\<lambda>h e a rt.
        (if h \<in> set raising then Some (demo_error ''RuntimeError'') else None, rt @ [h]))\<rparr>"

definition tracing_loaded :: "(string, nat, string list) host_call list" where
  "tracing_loaded = [Load_script (demo_fs demo_files) (tracing_py []) ''scripts/a.py'',
                     Load_script (demo_fs demo_files) (tracing_py []) ''scripts/b.py'']"

definition tracing_resolved :: "(string, nat, string list) host_call list" where
  "tracing_resolved = tracing_loaded @ [Dispatch_event (tracing_py []) ''on_tick'' 7]"

section \<open>Basic facts\<close>

lemma log_message_simps [simp]:
  "module_path (log_message msg s) = module_path s"
  "loaded_modules (log_message msg s) = loaded_modules s"
  "module_function_cache (log_message msg s) = module_function_cache s"
  "runtime (log_message msg s) = runtime s"
  "logger (log_message msg s) = logger s @ [msg]"
  "calls (log_message msg s) = calls s"
  "scans (log_message msg s) = scans s"
  by (simp_all add: log_message_def)

lemma catch_error_simps [simp]:
  "module_path (catch_error msg e s) = module_path s"
  "loaded_modules (catch_error msg e s) = loaded_modules s"
  "module_function_cache (catch_error msg e s) = module_function_cache s"
  "runtime (catch_error msg e s) = runtime s"
  "calls (catch_error msg e s) = calls s"
  "scans (catch_error msg e s) = scans s"
  by (simp_all add: catch_error_def Let_def split: option.split)

lemma logger_catch_error:
  "logger (catch_error msg e s) =
     logger s @ (msg @ what e) #
       (case traceback e of None \<Rightarrow> [] | Some tb \<Rightarrow> [''Trace:\<newline>'' @ tb])"
  by (simp add: catch_error_def Let_def split: option.split)

lemma map_of_remove_from_function_cache:
  "map_of (remove_from_function_cache n cache) E = map_option (erase_found n) (map_of cache E)"
  by (induction n cache rule: remove_from_function_cache.induct) auto

lemma map_of_add_to_function_cache:
  "map_of (add_to_function_cache py rt script cache) E =
     map_option (\<lambda>modules. if py_hasattr py rt (script_module script) E
                             then modules @ [script] else modules)
       (map_of cache E)"
  by (induction py rt script cache rule: add_to_function_cache.induct) auto

lemma keys_remove_from_function_cache [simp]:
  "map fst (remove_from_function_cache n cache) = map fst cache"
  by (induction n cache rule: remove_from_function_cache.induct) auto

lemma keys_add_to_function_cache [simp]:
  "map fst (add_to_function_cache py rt script cache) = map fst cache"
  by (induction py rt script cache rule: add_to_function_cache.induct) auto

lemma call_cached_fields [simp]:
  "loaded_modules (call_cached py (\<lambda>_ s'. s') E a m s) = loaded_modules s"
  "module_function_cache (call_cached py (\<lambda>_ s'. s') E a m s) = module_function_cache s"
  "module_path (call_cached py (\<lambda>_ s'. s') E a m s) = module_path s"
  "scans (call_cached py (\<lambda>_ s'. s') E a m s) = scans s"
  by (simp_all add: call_cached_def Let_def split: prod.split option.split)

lemma dispatch_cached_fields [simp]:
  "loaded_modules (dispatch_cached py (\<lambda>_ s'. s') E a ms s) = loaded_modules s"
  "module_function_cache (dispatch_cached py (\<lambda>_ s'. s') E a ms s) = module_function_cache s"
  "module_path (dispatch_cached py (\<lambda>_ s'. s') E a ms s) = module_path s"
  "scans (dispatch_cached py (\<lambda>_ s'. s') E a ms s) = scans s"
  by (induction ms arbitrary: s) simp_all

lemma call_loaded_fields [simp]:
  "loaded_modules (snd (call_loaded py E a m acc)) = loaded_modules (snd acc)"
  "module_function_cache (snd (call_loaded py E a m acc)) = module_function_cache (snd acc)"
  "module_path (snd (call_loaded py E a m acc)) = module_path (snd acc)"
  "scans (snd (call_loaded py E a m acc)) = scans (snd acc)"
  by (simp_all add: call_loaded_def Let_def split: prod.split option.split)

lemma scan_loaded_fields [simp]:
  "loaded_modules (snd (scan_loaded py E a ls acc)) = loaded_modules (snd acc)"
  "module_function_cache (snd (scan_loaded py E a ls acc)) = module_function_cache (snd acc)"
  "module_path (snd (scan_loaded py E a ls acc)) = module_path (snd acc)"
  "scans (snd (scan_loaded py E a ls acc)) = scans (snd acc)"
  by (induction ls arbitrary: acc) simp_all

lemma dispatch_event_on_miss:
  assumes "map_of (module_function_cache s) E = None"
  shows "dispatch_event py E a s =
     (let r = scan_loaded py E a (loaded_modules s) ([], s\<lparr>scans := Suc (scans s)\<rparr>)
      in if fst r \<noteq> [] then
           (log_message
              (''ScriptManager::dispatch_event - Creating function cache for event: '' @ E)
              (snd r))
           \<lparr>module_function_cache := AList.update E (fst r) (module_function_cache s)\<rparr>
         else snd r)"
proof -
  obtain v t where r: "scan_loaded py E a (loaded_modules s) ([], s\<lparr>scans := Suc (scans s)\<rparr>) = (v, t)"
    by (cases "scan_loaded py E a (loaded_modules s) ([], s\<lparr>scans := Suc (scans s)\<rparr>)")
  have "module_function_cache t = module_function_cache s"
    using scan_loaded_fields(2) [of py E a "loaded_modules s" "([], s\<lparr>scans := Suc (scans s)\<rparr>)"]
    by (simp add: r)
  then show ?thesis
    using assms by (simp add: dispatch_event_def r)
qed

lemma dispatch_event_on_hit:
  assumes "map_of (module_function_cache s) E = Some cached"
  shows "dispatch_event py E a s = dispatch_cached py (\<lambda>_ s'. s') E a cached s"
  using assms by (simp add: dispatch_event_def)

lemma erase_found_others:
  "filter (\<lambda>m. name m \<noteq> n) (erase_found n modules) = filter (\<lambda>m. name m \<noteq> n) modules"
  by (induction modules) auto

lemma set_erase_found: "set (erase_found n modules) \<subseteq> set modules"
  by (induction modules) auto

lemma remove_from_function_cache_map:
  "remove_from_function_cache n cache =
     map (\<lambda>(function_name, modules). (function_name, erase_found n modules)) cache"
  by (induction n cache rule: remove_from_function_cache.induct) simp_all

lemma set_update_subset: "set (AList.update k v al) \<subseteq> insert (k, v) (set al)"
  by (induction al) auto

lemma add_to_function_cache_map:
  "add_to_function_cache py rt script cache =
     map (\<lambda>(function_name, modules).
            (function_name,
             if py_hasattr py rt (script_module script) function_name
             then modules @ [script] else modules)) cache"
  by (induction py rt script cache rule: add_to_function_cache.induct) simp_all

section \<open>Concrete runs\<close>

lemmas run_defs = demo_fs_def demo_py_def demo_error_def base_name_def demo_files_def
  script_a_def script_b_def initial_def py_ok_def both_loaded_def tick_resolved_def
  load_scripts_def load_script_def reload_script_def dispatch_event_def
  call_cached_def call_loaded_def log_message_def catch_error_def set_module_path_def Let_def

lemma demo_py_call_runtime: "snd (py_call (demo_py files) h e a rt) = rt"
  by (simp add: demo_py_def split: option.split bool.split)

lemma both_loaded_state:
  "perform_all both_loaded (initial []) =
   \<lparr>module_path = [], loaded_modules = [(''a'', script_a), (''b'', script_b)],
    module_function_cache = [],
    runtime = [(''a'', [(''on_tick'', False)]),
               (''b'', [(''on_tick'', False), (''on_join'', False)])],
    logger = [''ScriptManager::load_script - Script Module Loaded: a'',
              ''ScriptManager::load_script - Script Module Loaded: b''],
    calls = [], scans = 0\<rparr>"
  by (simp add: run_defs)

lemma tick_resolved_state:
  "perform_all tick_resolved (initial []) =
   \<lparr>module_path = [], loaded_modules = [(''a'', script_a), (''b'', script_b)],
    module_function_cache = [(''on_tick'', [script_a, script_b])],
    runtime = [(''a'', [(''on_tick'', False)]),
               (''b'', [(''on_tick'', False), (''on_join'', False)])],
    logger = [''ScriptManager::load_script - Script Module Loaded: a'',
              ''ScriptManager::load_script - Script Module Loaded: b'',
              ''ScriptManager::dispatch_event - Dispatching event: on_tick'',
              ''ScriptManager::dispatch_event - Dispatching event: on_tick'',
              ''ScriptManager::dispatch_event - Creating function cache for event: on_tick''],
    calls = [(script_a, ''on_tick''), (script_b, ''on_tick'')], scans = 1\<rparr>"
  by (simp add: run_defs)

lemma tick_emptied_state:
  "perform_all tick_emptied (initial []) =
   \<lparr>module_path = [], loaded_modules = [(''a'', script_a)],
    module_function_cache = [(''on_tick'', [])],
    runtime = [(''a'', [(''on_join'', False)])],
    logger = [''ScriptManager::load_script - Script Module Loaded: a'',
              ''ScriptManager::dispatch_event - Dispatching event: on_tick'',
              ''ScriptManager::dispatch_event - Creating function cache for event: on_tick'',
              ''ScriptManager::reload_script - Reloaded Module: a''],
    calls = [(script_a, ''on_tick'')], scans = 1\<rparr>"
  by (simp add: run_defs py_a_edited_def tick_emptied_def)

lemma a_raises_loaded_state:
  "perform_all a_raises_loaded (initial []) =
   \<lparr>module_path = [], loaded_modules = [(''a'', script_a), (''b'', script_b)],
    module_function_cache = [],
    runtime = [(''a'', [(''on_tick'', True)]), (''b'', [(''on_tick'', False)])],
    logger = [''ScriptManager::load_script - Script Module Loaded: a'',
              ''ScriptManager::load_script - Script Module Loaded: b''],
    calls = [], scans = 0\<rparr>"
  by (simp add: run_defs py_a_raises_def a_raises_loaded_def)

section \<open>A handler that throws during the first dispatch of an event\<close>

text \<open>
  Claim C1 says that in a cache-miss dispatch a module whose handler throws is still
  collected, so that the new cache entry holds it and the next dispatch calls its handler
  again. The code does not do that: \<^verbatim>\<open>valid_modules.push_back(script)\<close> stands after the
  call inside the \<^verbatim>\<open>try\<close> block, so the throw skips it, although the comments of the
  branch speak of the modules in which the function was found. The run below has
  \<^verbatim>\<open>a\<close> and \<^verbatim>\<open>b\<close> loaded, both with an \<^verbatim>\<open>on_tick\<close>, that of \<^verbatim>\<open>a\<close> throwing.
  The first dispatch calls both and creates the entry \<open>[b]\<close>; the second dispatch calls
  \<^verbatim>\<open>b\<close> only.
\<close>

theorem raising_handler_left_out_of_cache:
  "fst (py_call py_a_raises ''a'' ''on_tick'' 7
          (runtime (perform_all a_raises_loaded (initial [])))) =
     Some \<lparr>what = ''RuntimeError'', traceback = None\<rparr>
   \<and> module_function_cache
       (dispatch_event py_a_raises ''on_tick'' 7 (perform_all a_raises_loaded (initial []))) =
     [(''on_tick'', [script_b])]
   \<and> calls
       (dispatch_event py_a_raises ''on_tick'' 8
          (dispatch_event py_a_raises ''on_tick'' 7
             (perform_all a_raises_loaded (initial [])))) =
     [(script_a, ''on_tick''), (script_b, ''on_tick''), (script_b, ''on_tick'')]"
  by (simp add: a_raises_loaded_state) (simp add: run_defs py_a_raises_def)

section \<open>Loading a script a second time\<close>

text \<open>
  Claim C2 says that a module, identified by its name, occurs at most once in a cache
  entry after every operation, a second \<^verbatim>\<open>load_script\<close> of the same file included.
  The code does not keep that: \<^verbatim>\<open>load_script\<close> pushes the new record onto every
  matching cache entry and never removes the one pushed before, which
  \<^verbatim>\<open>reload_script\<close> does do. In the run below \<^verbatim>\<open>a.py\<close> is loaded, \<^verbatim>\<open>on_tick\<close>
  is dispatched once, and \<^verbatim>\<open>a.py\<close> is loaded again: the entry of \<^verbatim>\<open>on_tick\<close> then
  holds \<^verbatim>\<open>a\<close> twice, and the next dispatch calls its handler twice. Every other
  operation keeps the names of an entry unique (\<open>names_once_reload_script\<close>,
  \<open>names_once_dispatch_event\<close> and \<open>names_once_load_script\<close> below).
\<close>

theorem second_load_script_duplicates_cache_entry:
  "module_function_cache
     (perform_all
        [Load_script (demo_fs demo_files) py_ok ''scripts/a.py'',
         Dispatch_event py_ok ''on_tick'' 7,
         Load_script (demo_fs demo_files) py_ok ''scripts/a.py'']
        (initial [])) =
     [(''on_tick'', [script_a, script_a])]
   \<and> calls
     (perform_all
        [Load_script (demo_fs demo_files) py_ok ''scripts/a.py'',
         Dispatch_event py_ok ''on_tick'' 7,
         Load_script (demo_fs demo_files) py_ok ''scripts/a.py'',
         Dispatch_event py_ok ''on_tick'' 8]
        (initial [])) =
     [(script_a, ''on_tick''), (script_a, ''on_tick''), (script_a, ''on_tick'')]"
  by (simp add: run_defs)

section \<open>A reload that fails\<close>

lemma erase_found_single:
  assumes "length (filter (\<lambda>m. name m = n) modules) \<le> 1"
  shows "\<forall>m \<in> set (erase_found n modules). name m \<noteq> n"
  using assms
proof (induction modules)
  case Nil
  then show ?case by simp
next
  case (Cons x xs)
  show ?case
  proof (cases "name x = n")
    case True
    with Cons.prems have "filter (\<lambda>m. name m = n) xs = []"
      by simp
    then have "\<forall>m \<in> set xs. name m \<noteq> n"
      by (simp add: filter_empty_conv)
    with True show ?thesis by simp
  next
    case False
    with Cons.prems have "length (filter (\<lambda>m. name m = n) xs) \<le> 1"
      by simp
    from Cons.IH [OF this] False show ?thesis by simp
  qed
qed

text \<open>
  When the reload throws, the registry is as before and the cache is the one left by the
  removal loop. That loop erases the first record of the module's name in each entry, so
  the module is gone from an entry that held it at most once.
\<close>

lemma reload_script_failure:
  assumes "map_of (loaded_modules s) n = Some script"
    and "py_reload py (script_module script) (runtime s) = (Some e, rt1)"
  shows "loaded_modules (reload_script py n s) = loaded_modules s"
    and "module_function_cache (reload_script py n s) =
           remove_from_function_cache (name script) (module_function_cache s)"
  using assms by (simp_all add: reload_script_def Let_def)

lemma reload_script_failure_single:
  assumes "map_of (loaded_modules s) n = Some script"
    and "py_reload py (script_module script) (runtime s) = (Some e, rt1)"
    and "\<And>E modules. (E, modules) \<in> set (module_function_cache s) \<Longrightarrow>
           length (filter (\<lambda>m. name m = name script) modules) \<le> 1"
    and "(E, modules') \<in> set (module_function_cache (reload_script py n s))"
    and "m \<in> set modules'"
  shows "name m \<noteq> name script"
proof -
  from assms(4) have "(E, modules') \<in>
      (\<lambda>(function_name, modules). (function_name, erase_found (name script) modules))
        ` set (module_function_cache s)"
    by (simp add: reload_script_failure(2) [OF assms(1,2)] remove_from_function_cache_map)
  then obtain modules where old: "(E, modules) \<in> set (module_function_cache s)"
    and erased: "modules' = erase_found (name script) modules"
    by auto
  from erase_found_single [OF assms(3) [OF old]] erased assms(5) show ?thesis
    by blast
qed

text \<open>
  Claim C3 says that after a reload that fails the module's record is still in the
  registry and is absent from every cache entry. The first half holds in every state
  (\<open>reload_script_failure\<close>); the second holds where no entry holds the name twice
  (\<open>reload_script_failure_single\<close>), and the removal loop, whose comment is
  \<^verbatim>\<open>Remove the module from cache\<close>, erases one record only. After the second
  \<^verbatim>\<open>load_script\<close> of the run above the entry of \<^verbatim>\<open>on_tick\<close> holds \<^verbatim>\<open>a\<close> twice;
  \<^verbatim>\<open>a.py\<close> is then edited so that it no longer compiles, and the reload fails. The
  module is still in the entry, and the next dispatch calls its handler.
\<close>

theorem failed_reload_leaves_duplicate_cached:
  "fst (py_reload py_a_broken ''a'' [(''a'', [(''on_tick'', False)])]) =
     Some \<lparr>what = ''SyntaxError'', traceback = None\<rparr>
   \<and> module_function_cache
     (perform_all
        [Load_script (demo_fs demo_files) py_ok ''scripts/a.py'',
         Dispatch_event py_ok ''on_tick'' 7,
         Load_script (demo_fs demo_files) py_ok ''scripts/a.py'',
         Reload_script py_a_broken ''a'']
        (initial [])) =
     [(''on_tick'', [script_a])]
   \<and> loaded_modules
     (perform_all
        [Load_script (demo_fs demo_files) py_ok ''scripts/a.py'',
         Dispatch_event py_ok ''on_tick'' 7,
         Load_script (demo_fs demo_files) py_ok ''scripts/a.py'',
         Reload_script py_a_broken ''a'']
        (initial [])) =
     [(''a'', script_a)]
   \<and> calls
     (perform_all
        [Load_script (demo_fs demo_files) py_ok ''scripts/a.py'',
         Dispatch_event py_ok ''on_tick'' 7,
         Load_script (demo_fs demo_files) py_ok ''scripts/a.py'',
         Reload_script py_a_broken ''a'',
         Dispatch_event py_a_broken ''on_tick'' 8]
        (initial [])) =
     [(script_a, ''on_tick''), (script_a, ''on_tick'')]"
  by (simp add: run_defs py_a_broken_def)

section \<open>The cache holds loaded modules only\<close>

lemma entry_add_to_function_cache:
  assumes "(E, modules') \<in> set (add_to_function_cache py rt script cache)"
  shows "\<exists>modules. (E, modules) \<in> set cache \<and> set modules' \<subseteq> insert script (set modules)"
  using assms
  by (induction py rt script cache rule: add_to_function_cache.induct)
     (auto split: if_splits)

lemma entry_remove_from_function_cache:
  assumes "(E, modules') \<in> set (remove_from_function_cache n cache)"
  shows "\<exists>modules. (E, modules) \<in> set cache \<and> set modules' \<subseteq> set modules"
  using assms set_erase_found
  by (induction n cache rule: remove_from_function_cache.induct) fastforce+

lemma cache_in_registry_initial: "cache_in_registry (initial rt)"
  by (simp add: cache_in_registry_def initial_def)

lemma cache_in_registryI:
  assumes "\<And>k script. (k, script) \<in> set (loaded_modules s) \<Longrightarrow> name script = k"
    and "\<And>E modules m. (E, modules) \<in> set (module_function_cache s) \<Longrightarrow> m \<in> set modules \<Longrightarrow>
           name m \<in> fst ` set (loaded_modules s)"
  shows "cache_in_registry s"
  using assms unfolding cache_in_registry_def by blast

lemma registry_key_is_name:
  assumes "cache_in_registry s" and "(k, script) \<in> set (loaded_modules s)"
  shows "name script = k"
  using assms unfolding cache_in_registry_def by blast

lemma cached_name_in_registry:
  assumes "cache_in_registry s" and "(E, modules) \<in> set (module_function_cache s)"
    and "m \<in> set modules"
  shows "name m \<in> fst ` set (loaded_modules s)"
  using assms unfolding cache_in_registry_def by blast

lemma cache_in_registry_cong:
  assumes "cache_in_registry s" and "loaded_modules t = loaded_modules s"
    and "module_function_cache t = module_function_cache s"
  shows "cache_in_registry t"
  using assms by (simp add: cache_in_registry_def)

lemma cache_in_registry_load_script:
  assumes "cache_in_registry s"
  shows "cache_in_registry (load_script fs py path s)"
proof -
  let ?n = "fs_stem fs (fs_relative fs (fs_absolute fs path))"
  have loaded: "cache_in_registry
          (s\<lparr>runtime := rt,
             loaded_modules := AList.update ?n script (loaded_modules s),
             module_function_cache := add_to_function_cache py rt script (module_function_cache s)\<rparr>)"
    if named: "name script = ?n" for rt and script :: "'a ScriptModule"
  proof (rule cache_in_registryI)
    fix k r
    assume "(k, r) \<in> set (loaded_modules
              (s\<lparr>runtime := rt,
                 loaded_modules := AList.update ?n script (loaded_modules s),
                 module_function_cache :=
                   add_to_function_cache py rt script (module_function_cache s)\<rparr>))"
    then have "(k, r) = (?n, script) \<or> (k, r) \<in> set (loaded_modules s)"
      using set_update_subset [of ?n script "loaded_modules s"] by auto
    then show "name r = k"
      using named registry_key_is_name [OF assms] by auto
  next
    fix E modules' m
    assume entry: "(E, modules') \<in> set (module_function_cache
              (s\<lparr>runtime := rt,
                 loaded_modules := AList.update ?n script (loaded_modules s),
                 module_function_cache :=
                   add_to_function_cache py rt script (module_function_cache s)\<rparr>))"
      and m: "m \<in> set modules'"
    from entry obtain modules where old: "(E, modules) \<in> set (module_function_cache s)"
      and sub: "set modules' \<subseteq> insert script (set modules)"
      using entry_add_to_function_cache [of E modules' py rt script "module_function_cache s"]
      by auto
    from m sub have "m = script \<or> m \<in> set modules"
      by auto
    then have "name m \<in> fst ` set (AList.update ?n script (loaded_modules s))"
    proof
      assume "m = script"
      with named show ?thesis
        by (simp add: AList.dom_update)
    next
      assume "m \<in> set modules"
      from cached_name_in_registry [OF assms old this] show ?thesis
        by (simp add: AList.dom_update)
    qed
    then show "name m \<in> fst ` set (loaded_modules
              (s\<lparr>runtime := rt,
                 loaded_modules := AList.update ?n script (loaded_modules s),
                 module_function_cache :=
                   add_to_function_cache py rt script (module_function_cache s)\<rparr>))"
      by simp
  qed
  show ?thesis
  proof (cases "sys_path_append py (fs_absolute fs (fs_parent_path fs path)) (runtime s)")
    case (Pair r rt1)
    show ?thesis
    proof (cases r)
      case (Some e)
      show ?thesis
        by (rule cache_in_registry_cong [OF assms])
           (simp_all add: load_script_def Let_def Pair Some)
    next
      case None
      show ?thesis
      proof (cases "py_import py ?n rt1")
        case imp: (Pair r2 rt2)
        show ?thesis
        proof (cases r2)
          case (Inl e)
          show ?thesis
            by (rule cache_in_registry_cong [OF assms])
               (simp_all add: load_script_def Let_def Pair None imp Inl)
        next
          case (Inr module)
          have "cache_in_registry
                  (s\<lparr>runtime := rt2,
                     loaded_modules := AList.update ?n
                       \<lparr>name = ?n, script_module = module,
                        absolute_path = fs_absolute fs path,
                        relative_path = fs_relative fs (fs_absolute fs path)\<rparr>
                       (loaded_modules s),
                     module_function_cache := add_to_function_cache py rt2
                       \<lparr>name = ?n, script_module = module,
                        absolute_path = fs_absolute fs path,
                        relative_path = fs_relative fs (fs_absolute fs path)\<rparr>
                       (module_function_cache s)\<rparr>)"
            by (rule loaded) simp
          then show ?thesis
            by (rule cache_in_registry_cong)
               (simp_all add: load_script_def Let_def Pair None imp Inr)
        qed
      qed
    qed
  qed
qed

lemma cache_in_registry_load_each:
  assumes "cache_in_registry s"
  shows "cache_in_registry (load_each fs py files s)"
  using assms
  by (induction files arbitrary: s) (simp_all add: cache_in_registry_load_script)

lemma cache_in_registry_load_scripts:
  assumes "cache_in_registry s"
  shows "cache_in_registry (load_scripts fs py path s)"
proof -
  have "cache_in_registry (log_message msg s)" for msg
    by (rule cache_in_registry_cong [OF assms]) simp_all
  then show ?thesis
    by (simp add: load_scripts_def Let_def cache_in_registry_load_each [OF assms])
qed

lemma cache_in_registry_reload_script:
  assumes "cache_in_registry s"
  shows "cache_in_registry (reload_script py n s)"
proof (cases "map_of (loaded_modules s) n")
  case None
  show ?thesis
    by (rule cache_in_registry_cong [OF assms]) (simp_all add: reload_script_def None)
next
  case (Some script)
  then have registered: "(n, script) \<in> set (loaded_modules s)"
    by (rule map_of_SomeD)
  then have named: "name script \<in> fst ` set (loaded_modules s)"
    using registry_key_is_name [OF assms registered] by force
  let ?removed = "remove_from_function_cache (name script) (module_function_cache s)"
  have removed: "name m \<in> fst ` set (loaded_modules s)"
    if entry: "(E, modules') \<in> set ?removed" and m: "m \<in> set modules'" for E modules' m
  proof -
    from entry_remove_from_function_cache [OF entry]
    obtain modules where "(E, modules) \<in> set (module_function_cache s)"
      and "set modules' \<subseteq> set modules"
      by blast
    with m cached_name_in_registry [OF assms] show ?thesis
      by blast
  qed
  have added: "name m \<in> fst ` set (loaded_modules s)"
    if entry: "(E, modules') \<in> set (add_to_function_cache py rt script ?removed)"
      and m: "m \<in> set modules'" for E modules' m rt
  proof -
    from entry_add_to_function_cache [OF entry]
    obtain modules where "(E, modules) \<in> set ?removed"
      and "set modules' \<subseteq> insert script (set modules)"
      by blast
    with m removed named show ?thesis
      by blast
  qed
  obtain r rt1 where reload: "py_reload py (script_module script) (runtime s) = (r, rt1)"
    by (cases "py_reload py (script_module script) (runtime s)")
  show ?thesis
  proof (cases r)
    case None
    show ?thesis
    proof (rule cache_in_registryI)
      fix k script'
      assume "(k, script') \<in> set (loaded_modules (reload_script py n s))"
      then show "name script' = k"
        using registry_key_is_name [OF assms]
        by (simp add: reload_script_def Some Let_def reload None)
    next
      fix E modules' m
      assume "(E, modules') \<in> set (module_function_cache (reload_script py n s))"
        and "m \<in> set modules'"
      then show "name m \<in> fst ` set (loaded_modules (reload_script py n s))"
        using added [of E modules' rt1 m]
        by (simp add: reload_script_def Some Let_def reload None)
    qed
  next
    case failed: (Some e)
    show ?thesis
    proof (rule cache_in_registryI)
      fix k script'
      assume "(k, script') \<in> set (loaded_modules (reload_script py n s))"
      then show "name script' = k"
        using registry_key_is_name [OF assms]
        by (simp add: reload_script_def Some Let_def reload failed)
    next
      fix E modules' m
      assume "(E, modules') \<in> set (module_function_cache (reload_script py n s))"
        and "m \<in> set modules'"
      then show "name m \<in> fst ` set (loaded_modules (reload_script py n s))"
        using removed [of E modules' m]
        by (simp add: reload_script_def Some Let_def reload failed)
    qed
  qed
qed

lemma valid_modules_call_loaded:
  "set (fst (call_loaded py E a script acc)) \<subseteq> insert script (set (fst acc))"
  by (cases acc) (auto simp: call_loaded_def Let_def split: prod.split option.split)

lemma valid_modules_scan_loaded:
  "set (fst (scan_loaded py E a ls acc)) \<subseteq> set (fst acc) \<union> snd ` set ls"
proof (induction ls arbitrary: acc)
  case Nil
  then show ?case by simp
next
  case (Cons l ls)
  from Cons.IH [of "call_loaded py E a (snd l) acc"]
    valid_modules_call_loaded [of py E a "snd l" acc]
  show ?case by auto
qed

lemma cache_in_registry_dispatch_event:
  assumes "cache_in_registry s"
  shows "cache_in_registry (dispatch_event py E a s)"
proof (cases "map_of (module_function_cache s) E")
  case (Some cached)
  show ?thesis
    by (rule cache_in_registry_cong [OF assms]) (simp_all add: dispatch_event_on_hit [OF Some])
next
  case None
  let ?r = "scan_loaded py E a (loaded_modules s) ([], s\<lparr>scans := Suc (scans s)\<rparr>)"
  show ?thesis
  proof (cases "fst ?r = []")
    case True
    show ?thesis
      by (rule cache_in_registry_cong [OF assms])
         (simp_all add: dispatch_event_on_miss [OF None] Let_def True)
  next
    case False
    have valid: "set (fst ?r) \<subseteq> snd ` set (loaded_modules s)"
      using valid_modules_scan_loaded [of py E a "loaded_modules s" "([], s\<lparr>scans := Suc (scans s)\<rparr>)"]
      by simp
    show ?thesis
    proof (rule cache_in_registryI)
      fix k script
      assume "(k, script) \<in> set (loaded_modules (dispatch_event py E a s))"
      then show "name script = k"
        using registry_key_is_name [OF assms]
        by (simp add: dispatch_event_on_miss [OF None] Let_def False)
    next
      fix E' modules m
      assume "(E', modules) \<in> set (module_function_cache (dispatch_event py E a s))"
        and m: "m \<in> set modules"
      then have "(E', modules) \<in> set (AList.update E (fst ?r) (module_function_cache s))"
        by (simp add: dispatch_event_on_miss [OF None] Let_def False)
      then have "(E', modules) = (E, fst ?r) \<or> (E', modules) \<in> set (module_function_cache s)"
        using set_update_subset [of E "fst ?r" "module_function_cache s"] by auto
      then have "name m \<in> fst ` set (loaded_modules s)"
      proof
        assume "(E', modules) = (E, fst ?r)"
        with m valid obtain k where "(k, m) \<in> set (loaded_modules s)"
          by auto
        with registry_key_is_name [OF assms this] show ?thesis
          by force
      next
        assume "(E', modules) \<in> set (module_function_cache s)"
        from cached_name_in_registry [OF assms this m] show ?thesis .
      qed
      then show "name m \<in> fst ` set (loaded_modules (dispatch_event py E a s))"
        by (simp add: dispatch_event_on_miss [OF None] Let_def False)
    qed
  qed
qed

lemma cache_in_registry_perform:
  assumes "cache_in_registry s"
  shows "cache_in_registry (perform c s)"
proof (cases c)
  case (Set_module_path path)
  show ?thesis
    by (rule cache_in_registry_cong [OF assms])
       (simp_all add: Set_module_path set_module_path_def)
qed (simp_all add: assms cache_in_registry_load_script cache_in_registry_load_scripts
       cache_in_registry_reload_script cache_in_registry_dispatch_event)

lemma cache_in_registry_perform_all:
  assumes "cache_in_registry s"
  shows "cache_in_registry (perform_all cs s)"
  using assms
  by (induction cs arbitrary: s) (simp_all add: cache_in_registry_perform)

text \<open>
  In every state the host reaches from its initial state by calls of
  \<^verbatim>\<open>set_module_path\<close>, \<^verbatim>\<open>load_script\<close>, \<^verbatim>\<open>load_scripts\<close>, \<^verbatim>\<open>reload_script\<close>
  and \<^verbatim>\<open>dispatch_event\<close>, whatever the files and the interpreter do, the name of every
  record in every cache entry is a key of the registry, and the record stored under that
  key bears that name.
\<close>

lemma cached_names_are_loaded:
  assumes "(E, modules) \<in> set (module_function_cache (perform_all cs (initial rt)))"
    and "m \<in> set modules"
  shows "\<exists>script. map_of (loaded_modules (perform_all cs (initial rt))) (name m) = Some script
           \<and> name script = name m"
proof -
  have inv: "cache_in_registry (perform_all cs (initial rt))"
    by (rule cache_in_registry_perform_all) (rule cache_in_registry_initial)
  from cached_name_in_registry [OF inv assms]
  obtain script where found:
    "map_of (loaded_modules (perform_all cs (initial rt))) (name m) = Some script"
    by (cases "map_of (loaded_modules (perform_all cs (initial rt))) (name m)")
       (simp_all add: map_of_eq_None_iff)
  from registry_key_is_name [OF inv map_of_SomeD [OF found]] found show ?thesis
    by simp
qed

text \<open>
  Claim C4 says that in every state the host reaches, every record referenced from a
  cache entry is present in the registry under its name. The code keeps the names
  (\<open>cached_names_are_loaded\<close>) but not the records: \<^verbatim>\<open>load_script\<close> of a file whose
  stem is already loaded replaces the registry's record and leaves the replaced one in
  the cache entries, where \<^verbatim>\<open>reload_script\<close> would have removed it first. In the run
  below \<^verbatim>\<open>scripts/a.py\<close> is loaded, \<^verbatim>\<open>on_tick\<close> is dispatched once, and
  \<^verbatim>\<open>scripts/sub/a.py\<close> is loaded: the registry then holds the new record only, and the
  entry of \<^verbatim>\<open>on_tick\<close> still holds the old one, which is no record of the registry.
\<close>

theorem cached_record_not_in_registry:
  "loaded_modules
     (perform_all
        [Load_script (demo_fs demo_files) py_ok ''scripts/a.py'',
         Dispatch_event py_ok ''on_tick'' 7,
         Load_script (demo_fs demo_files) py_ok ''scripts/sub/a.py'']
        (initial [])) =
     [(''a'', script_a_sub)]
   \<and> module_function_cache
     (perform_all
        [Load_script (demo_fs demo_files) py_ok ''scripts/a.py'',
         Dispatch_event py_ok ''on_tick'' 7,
         Load_script (demo_fs demo_files) py_ok ''scripts/sub/a.py'']
        (initial [])) =
     [(''on_tick'', [script_a, script_a_sub])]
   \<and> script_a \<noteq> script_a_sub
   \<and> map_of
       (loaded_modules
          (perform_all
             [Load_script (demo_fs demo_files) py_ok ''scripts/a.py'',
              Dispatch_event py_ok ''on_tick'' 7,
              Load_script (demo_fs demo_files) py_ok ''scripts/sub/a.py'']
             (initial [])))
       (name script_a) \<noteq> Some script_a"
  by (simp add: run_defs script_a_sub_def)

section \<open>Where names stay unique\<close>

text \<open>
  Apart from a \<^verbatim>\<open>load_script\<close> of a name that is already loaded, the operations keep
  every cache entry free of repeated names: \<^verbatim>\<open>reload_script\<close>, \<^verbatim>\<open>dispatch_event\<close>,
  and \<^verbatim>\<open>load_script\<close> of a new name.
\<close>

lemma names_onceI:
  assumes "distinct (map fst (loaded_modules s))"
    and "\<And>E modules. (E, modules) \<in> set (module_function_cache s) \<Longrightarrow> distinct (map name modules)"
  shows "names_once s"
  using assms unfolding names_once_def by blast

lemma names_once_registry: "names_once s \<Longrightarrow> distinct (map fst (loaded_modules s))"
  by (simp add: names_once_def)

lemma names_once_entry:
  "names_once s \<Longrightarrow> (E, modules) \<in> set (module_function_cache s) \<Longrightarrow> distinct (map name modules)"
  unfolding names_once_def by blast

lemma names_once_cong:
  assumes "names_once s" and "loaded_modules t = loaded_modules s"
    and "module_function_cache t = module_function_cache s"
  shows "names_once t"
  using assms by (simp add: names_once_def)

lemma distinct_erase_found:
  assumes "distinct (map name modules)"
  shows "distinct (map name (erase_found n modules))
       \<and> n \<notin> name ` set (erase_found n modules)"
  using assms
proof (induction modules)
  case Nil
  then show ?case by simp
next
  case (Cons x xs)
  then have "name x \<notin> name ` set (erase_found n xs)"
    using set_erase_found [of n xs] by auto
  with Cons show ?case by auto
qed

lemma names_once_reload_script:
  assumes once: "names_once s" and inv: "cache_in_registry s"
  shows "names_once (reload_script py n s)"
proof (cases "map_of (loaded_modules s) n")
  case None
  show ?thesis
    by (rule names_once_cong [OF once]) (simp_all add: reload_script_def None)
next
  case (Some script)
  obtain r rt1 where reload: "py_reload py (script_module script) (runtime s) = (r, rt1)"
    by (cases "py_reload py (script_module script) (runtime s)")
  have registry: "loaded_modules (reload_script py n s) = loaded_modules s"
    by (cases r) (simp_all add: reload_script_def Some Let_def reload)
  show ?thesis
  proof (rule names_onceI)
    show "distinct (map fst (loaded_modules (reload_script py n s)))"
      using names_once_registry [OF once] by (simp add: registry)
  next
    fix E modules'
    assume "(E, modules') \<in> set (module_function_cache (reload_script py n s))"
    then obtain modules where old: "(E, modules) \<in> set (module_function_cache s)"
      and new: "modules' = erase_found (name script) modules
              \<or> modules' = erase_found (name script) modules @ [script]"
      by (cases r)
         (auto simp: reload_script_def Some Let_def reload remove_from_function_cache_map
            add_to_function_cache_map split: if_splits)
    from distinct_erase_found [OF names_once_entry [OF once old], of "name script"] new
    show "distinct (map name modules')"
      by auto
  qed
qed

lemma distinct_scan_loaded:
  assumes "distinct (map name (fst acc @ map snd ls))"
  shows "distinct (map name (fst (scan_loaded py E a ls acc)))"
  using assms
proof (induction ls arbitrary: acc)
  case Nil
  then show ?case by simp
next
  case (Cons l ls)
  have "fst (call_loaded py E a (snd l) acc) = fst acc
      \<or> fst (call_loaded py E a (snd l) acc) = fst acc @ [snd l]"
    by (cases acc) (auto simp: call_loaded_def Let_def split: prod.split option.split)
  then have "distinct (map name (fst (call_loaded py E a (snd l) acc) @ map snd ls))"
  proof
    assume "fst (call_loaded py E a (snd l) acc) = fst acc"
    with Cons.prems show ?thesis by simp
  next
    assume "fst (call_loaded py E a (snd l) acc) = fst acc @ [snd l]"
    with Cons.prems show ?thesis by simp
  qed
  from Cons.IH [OF this] show ?case by simp
qed

lemma registry_names:
  assumes "cache_in_registry s"
  shows "map (name \<circ> snd) (loaded_modules s) = map fst (loaded_modules s)"
  using registry_key_is_name [OF assms] by auto

lemma names_once_dispatch_event:
  assumes once: "names_once s" and inv: "cache_in_registry s"
  shows "names_once (dispatch_event py E a s)"
proof (cases "map_of (module_function_cache s) E")
  case (Some cached)
  show ?thesis
    by (rule names_once_cong [OF once]) (simp_all add: dispatch_event_on_hit [OF Some])
next
  case None
  let ?r = "scan_loaded py E a (loaded_modules s) ([], s\<lparr>scans := Suc (scans s)\<rparr>)"
  have valid: "distinct (map name (fst ?r))"
    by (rule distinct_scan_loaded)
       (simp add: registry_names [OF inv] names_once_registry [OF once])
  show ?thesis
  proof (rule names_onceI)
    show "distinct (map fst (loaded_modules (dispatch_event py E a s)))"
      using names_once_registry [OF once]
      by (simp add: dispatch_event_on_miss [OF None] Let_def)
  next
    fix E' modules
    assume "(E', modules) \<in> set (module_function_cache (dispatch_event py E a s))"
    then have "(E', modules) \<in> set (module_function_cache s)
        \<or> (E', modules) \<in> set (AList.update E (fst ?r) (module_function_cache s))"
      by (simp add: dispatch_event_on_miss [OF None] Let_def split: if_splits)
    then have "(E', modules) \<in> set (module_function_cache s) \<or> modules = fst ?r"
      using set_update_subset [of E "fst ?r" "module_function_cache s"] by auto
    with valid names_once_entry [OF once] show "distinct (map name modules)"
      by blast
  qed
qed

lemma names_once_load_script:
  assumes once: "names_once s" and inv: "cache_in_registry s"
    and fresh: "fs_stem fs (fs_relative fs (fs_absolute fs path)) \<notin> fst ` set (loaded_modules s)"
  shows "names_once (load_script fs py path s)"
proof -
  let ?n = "fs_stem fs (fs_relative fs (fs_absolute fs path))"
  have loaded: "names_once
          (s\<lparr>runtime := rt,
             loaded_modules := AList.update ?n script (loaded_modules s),
             module_function_cache := add_to_function_cache py rt script (module_function_cache s)\<rparr>)"
    if named: "name script = ?n" for rt and script :: "'a ScriptModule"
  proof (rule names_onceI)
    show "distinct (map fst (loaded_modules
              (s\<lparr>runtime := rt,
                 loaded_modules := AList.update ?n script (loaded_modules s),
                 module_function_cache :=
                   add_to_function_cache py rt script (module_function_cache s)\<rparr>)))"
      using names_once_registry [OF once] by (simp add: AList.distinct_update)
  next
    fix E modules'
    assume "(E, modules') \<in> set (module_function_cache
              (s\<lparr>runtime := rt,
                 loaded_modules := AList.update ?n script (loaded_modules s),
                 module_function_cache :=
                   add_to_function_cache py rt script (module_function_cache s)\<rparr>))"
    then obtain modules where old: "(E, modules) \<in> set (module_function_cache s)"
      and new: "modules' = modules \<or> modules' = modules @ [script]"
      by (auto simp: add_to_function_cache_map split: if_splits)
    have "name script \<notin> name ` set modules"
      using cached_name_in_registry [OF inv old] fresh named by auto
    with names_once_entry [OF once old] new show "distinct (map name modules')"
      by auto
  qed
  show ?thesis
  proof (cases "sys_path_append py (fs_absolute fs (fs_parent_path fs path)) (runtime s)")
    case (Pair r rt1)
    show ?thesis
    proof (cases r)
      case (Some e)
      show ?thesis
        by (rule names_once_cong [OF once]) (simp_all add: load_script_def Let_def Pair Some)
    next
      case None
      show ?thesis
      proof (cases "py_import py ?n rt1")
        case imp: (Pair r2 rt2)
        show ?thesis
        proof (cases r2)
          case (Inl e)
          show ?thesis
            by (rule names_once_cong [OF once])
               (simp_all add: load_script_def Let_def Pair None imp Inl)
        next
          case (Inr module)
          have "names_once
                  (s\<lparr>runtime := rt2,
                     loaded_modules := AList.update ?n
                       \<lparr>name = ?n, script_module = module,
                        absolute_path = fs_absolute fs path,
                        relative_path = fs_relative fs (fs_absolute fs path)\<rparr>
                       (loaded_modules s),
                     module_function_cache := add_to_function_cache py rt2
                       \<lparr>name = ?n, script_module = module,
                        absolute_path = fs_absolute fs path,
                        relative_path = fs_relative fs (fs_absolute fs path)\<rparr>
                       (module_function_cache s)\<rparr>)"
            by (rule loaded) simp
          then show ?thesis
            by (rule names_once_cong)
               (simp_all add: load_script_def Let_def Pair None imp Inr)
        qed
      qed
    qed
  qed
qed

section \<open>Isolation of handler failures\<close>

lemma call_cached_never_raising:
  assumes "runtime t = runtime s" and "calls t = calls s"
  shows "runtime (call_cached (never_raising py) (\<lambda>_ s'. s') E a m t) =
           runtime (call_cached py (\<lambda>_ s'. s') E a m s)
       \<and> calls (call_cached (never_raising py) (\<lambda>_ s'. s') E a m t) =
           calls (call_cached py (\<lambda>_ s'. s') E a m s)"
  using assms
  by (simp add: call_cached_def never_raising_def Let_def split: prod.split option.split)

lemma dispatch_cached_never_raising:
  assumes "runtime t = runtime s" and "calls t = calls s"
  shows "runtime (dispatch_cached (never_raising py) (\<lambda>_ s'. s') E a ms t) =
           runtime (dispatch_cached py (\<lambda>_ s'. s') E a ms s)
       \<and> calls (dispatch_cached (never_raising py) (\<lambda>_ s'. s') E a ms t) =
           calls (dispatch_cached py (\<lambda>_ s'. s') E a ms s)"
  using assms
proof (induction ms arbitrary: s t)
  case Nil
  then show ?case by simp
next
  case (Cons m ms)
  have step:
    "runtime (call_cached (never_raising py) (\<lambda>_ s'. s') E a m t) =
       runtime (call_cached py (\<lambda>_ s'. s') E a m s)"
    "calls (call_cached (never_raising py) (\<lambda>_ s'. s') E a m t) =
       calls (call_cached py (\<lambda>_ s'. s') E a m s)"
    using call_cached_never_raising [OF Cons.prems, of py E a m] by blast+
  from Cons.IH [OF step] show ?case by simp
qed

lemma call_loaded_never_raising:
  assumes "runtime (snd u) = runtime (snd v)" and "calls (snd u) = calls (snd v)"
  shows "runtime (snd (call_loaded (never_raising py) E a m u)) =
           runtime (snd (call_loaded py E a m v))
       \<and> calls (snd (call_loaded (never_raising py) E a m u)) =
           calls (snd (call_loaded py E a m v))"
  using assms
  by (cases u; cases v)
     (auto simp add: call_loaded_def never_raising_def Let_def split: prod.split option.split)

lemma scan_loaded_never_raising:
  assumes "runtime (snd u) = runtime (snd v)" and "calls (snd u) = calls (snd v)"
  shows "runtime (snd (scan_loaded (never_raising py) E a ls u)) =
           runtime (snd (scan_loaded py E a ls v))
       \<and> calls (snd (scan_loaded (never_raising py) E a ls u)) =
           calls (snd (scan_loaded py E a ls v))"
  using assms
proof (induction ls arbitrary: u v)
  case Nil
  then show ?case by simp
next
  case (Cons l ls)
  have step:
    "runtime (snd (call_loaded (never_raising py) E a (snd l) u)) =
       runtime (snd (call_loaded py E a (snd l) v))"
    "calls (snd (call_loaded (never_raising py) E a (snd l) u)) =
       calls (snd (call_loaded py E a (snd l) v))"
    using call_loaded_never_raising [OF Cons.prems, of py E a "snd l"] by blast+
  from Cons.IH [OF step] show ?case by simp
qed

lemma dispatch_event_never_raising:
  "runtime (dispatch_event (never_raising py) E a s) = runtime (dispatch_event py E a s)
 \<and> calls (dispatch_event (never_raising py) E a s) = calls (dispatch_event py E a s)"
proof (cases "map_of (module_function_cache s) E")
  case None
  have "runtime (snd (scan_loaded (never_raising py) E a (loaded_modules s)
                        ([], s\<lparr>scans := Suc (scans s)\<rparr>))) =
        runtime (snd (scan_loaded py E a (loaded_modules s) ([], s\<lparr>scans := Suc (scans s)\<rparr>)))
      \<and> calls (snd (scan_loaded (never_raising py) E a (loaded_modules s)
                        ([], s\<lparr>scans := Suc (scans s)\<rparr>))) =
        calls (snd (scan_loaded py E a (loaded_modules s) ([], s\<lparr>scans := Suc (scans s)\<rparr>)))"
    by (rule scan_loaded_never_raising) simp_all
  then show ?thesis
    by (simp add: dispatch_event_on_miss [OF None] Let_def)
next
  case (Some cached)
  show ?thesis
    using dispatch_cached_never_raising [of s s py E a cached]
    by (simp add: dispatch_event_on_hit [OF Some])
qed

lemma call_cached_effect:
  "runtime (call_cached py (\<lambda>_ s'. s') E a m s) =
     (if py_hasattr py (runtime s) (script_module m) E
      then snd (py_call py (script_module m) E a (runtime s)) else runtime s)
   \<and> calls (call_cached py (\<lambda>_ s'. s') E a m s) =
     calls s @ (if py_hasattr py (runtime s) (script_module m) E then [(m, E)] else [])"
  by (simp add: call_cached_def Let_def split: prod.split option.split)

lemma dispatch_cached_effect:
  "runtime (dispatch_cached py (\<lambda>_ s'. s') E a ms s) = run_handlers py E a ms (runtime s)
   \<and> calls (dispatch_cached py (\<lambda>_ s'. s') E a ms s) =
     calls s @ map (\<lambda>m. (m, E)) (handlers_reached py E a ms (runtime s))"
proof (induction ms arbitrary: s)
  case Nil
  show ?case by simp
next
  case (Cons m ms)
  show ?case
    using call_cached_effect [of py E a m s]
    by (simp add: Cons.IH)
qed

lemma call_loaded_effect:
  "runtime (snd (call_loaded py E a m acc)) =
     (if py_hasattr py (runtime (snd acc)) (script_module m) E
      then snd (py_call py (script_module m) E a (runtime (snd acc))) else runtime (snd acc))
   \<and> calls (snd (call_loaded py E a m acc)) =
     calls (snd acc) @
       (if py_hasattr py (runtime (snd acc)) (script_module m) E then [(m, E)] else [])"
  by (cases acc) (simp add: call_loaded_def Let_def split: prod.split option.split)

lemma scan_loaded_effect:
  "runtime (snd (scan_loaded py E a ls acc)) =
     run_handlers py E a (map snd ls) (runtime (snd acc))
   \<and> calls (snd (scan_loaded py E a ls acc)) =
     calls (snd acc) @
       map (\<lambda>m. (m, E)) (handlers_reached py E a (map snd ls) (runtime (snd acc)))"
proof (induction ls arbitrary: acc)
  case Nil
  show ?case by simp
next
  case (Cons l ls)
  show ?case
    using call_loaded_effect [of py E a "snd l" acc]
    by (simp add: Cons.IH)
qed

lemma dispatch_event_effect:
  "runtime (dispatch_event py E a s) = run_handlers py E a (candidates s E) (runtime s)
   \<and> calls (dispatch_event py E a s) =
     calls s @ map (\<lambda>m. (m, E)) (handlers_reached py E a (candidates s E) (runtime s))"
proof (cases "map_of (module_function_cache s) E")
  case None
  show ?thesis
    using scan_loaded_effect [of py E a "loaded_modules s" "([], s\<lparr>scans := Suc (scans s)\<rparr>)"]
    by (simp add: dispatch_event_on_miss [OF None] Let_def candidates_def None)
next
  case (Some cached)
  show ?thesis
    using dispatch_cached_effect [of py E a cached s]
    by (simp add: dispatch_event_on_hit [OF Some] candidates_def Some)
qed

lemma run_handlers_stable:
  assumes "\<And>h rt h'. py_hasattr py (snd (py_call py h E a rt)) h' E = py_hasattr py rt h' E"
  shows "run_handlers py E a ms rt =
           fold (\<lambda>m rt'. snd (py_call py (script_module m) E a rt'))
             (filter (\<lambda>m. py_hasattr py rt (script_module m) E) ms) rt
       \<and> (\<forall>h. py_hasattr py (run_handlers py E a ms rt) h E = py_hasattr py rt h E)"
proof (induction ms arbitrary: rt)
  case Nil
  show ?case by simp
next
  case (Cons m ms)
  let ?step = "\<lambda>m rt'. snd (py_call py (script_module m) E a rt')"
  let ?has = "\<lambda>rt' m. py_hasattr py rt' (script_module m) E"
  show ?case
  proof (cases "py_hasattr py rt (script_module m) E")
    case False
    from Cons.IH [of rt]
    have run: "run_handlers py E a ms rt = fold ?step (filter (?has rt) ms) rt"
      and attr: "\<forall>h. py_hasattr py (run_handlers py E a ms rt) h E = py_hasattr py rt h E"
      by blast+
    have "run_handlers py E a (m # ms) rt = run_handlers py E a ms rt"
      using False by simp
    moreover have "filter (?has rt) (m # ms) = filter (?has rt) ms"
      using False by simp
    ultimately show ?thesis
      using run attr by presburger
  next
    case True
    let ?rt1 = "snd (py_call py (script_module m) E a rt)"
    have same: "py_hasattr py ?rt1 h E = py_hasattr py rt h E" for h
      by (rule assms)
    from Cons.IH [of ?rt1]
    have run: "run_handlers py E a ms ?rt1 = fold ?step (filter (?has ?rt1) ms) ?rt1"
      and attr: "\<forall>h. py_hasattr py (run_handlers py E a ms ?rt1) h E = py_hasattr py ?rt1 h E"
      by blast+
    have filt: "filter (?has ?rt1) ms = filter (?has rt) ms"
      by (simp add: same)
    have unfold: "run_handlers py E a (m # ms) rt = run_handlers py E a ms ?rt1"
      using True by simp
    have "fold ?step (filter (?has rt) (m # ms)) rt = fold ?step (filter (?has rt) ms) ?rt1"
      using True by simp
    with run filt unfold have first: "run_handlers py E a (m # ms) rt =
        fold ?step (filter (?has rt) (m # ms)) rt"
      by simp
    have "\<forall>h. py_hasattr py (run_handlers py E a (m # ms) rt) h E = py_hasattr py rt h E"
      using attr same unfold by simp
    with first show ?thesis by blast
  qed
qed

lemma handlers_reached_stable:
  assumes "\<And>h rt h'. py_hasattr py (snd (py_call py h E a rt)) h' E = py_hasattr py rt h' E"
  shows "handlers_reached py E a ms rt = filter (\<lambda>m. py_hasattr py rt (script_module m) E) ms"
proof (induction ms arbitrary: rt)
  case Nil
  show ?case by simp
next
  case (Cons m ms)
  have "filter (\<lambda>m'. py_hasattr py (snd (py_call py (script_module m) E a rt)) (script_module m') E) ms
      = filter (\<lambda>m'. py_hasattr py rt (script_module m') E) ms"
    by (simp add: assms)
  with Cons.IH [of rt] Cons.IH [of "snd (py_call py (script_module m) E a rt)"]
  show ?case by simp
qed

text \<open>
  Claim C5: within one dispatch, a handler that throws does not keep any other matched
  handler from being called. In both branches the dispatch calls the handler of every
  candidate record whose module has the function when the record is reached, in order,
  and the interpreter ends in the state that these calls leave one after the other,
  whether they return or throw (\<open>handlers_reached\<close>, \<open>run_handlers\<close>). The handlers
  called and the interpreter state are thus those of the same dispatch with an
  interpreter in which no handler throws. When calling a handler of the event does not
  change which modules have the function, the handlers called are those of all the
  candidates that have it when the dispatch begins, and the interpreter state is the
  fold of their calls.
\<close>

theorem dispatch_event_isolation:
  "calls (dispatch_event py E a s) = calls (dispatch_event (never_raising py) E a s)
   \<and> runtime (dispatch_event py E a s) = runtime (dispatch_event (never_raising py) E a s)
   \<and> calls (dispatch_event py E a s) =
       calls s @ map (\<lambda>m. (m, E)) (handlers_reached py E a (candidates s E) (runtime s))
   \<and> runtime (dispatch_event py E a s) = run_handlers py E a (candidates s E) (runtime s)
   \<and> ((\<forall>h rt h'. py_hasattr py (snd (py_call py h E a rt)) h' E = py_hasattr py rt h' E) \<longrightarrow>
        calls (dispatch_event py E a s) =
          calls s @ map (\<lambda>m. (m, E))
            (filter (\<lambda>m. py_hasattr py (runtime s) (script_module m) E) (candidates s E))
        \<and> runtime (dispatch_event py E a s) =
          fold (\<lambda>m rt. snd (py_call py (script_module m) E a rt))
            (filter (\<lambda>m. py_hasattr py (runtime s) (script_module m) E) (candidates s E))
            (runtime s))"
proof (intro conjI impI)
  show "calls (dispatch_event py E a s) = calls (dispatch_event (never_raising py) E a s)"
    by (simp add: dispatch_event_never_raising)
next
  show "runtime (dispatch_event py E a s) = runtime (dispatch_event (never_raising py) E a s)"
    by (simp add: dispatch_event_never_raising)
next
  show "calls (dispatch_event py E a s) =
       calls s @ map (\<lambda>m. (m, E)) (handlers_reached py E a (candidates s E) (runtime s))"
    by (simp add: dispatch_event_effect)
next
  show "runtime (dispatch_event py E a s) = run_handlers py E a (candidates s E) (runtime s)"
    by (simp add: dispatch_event_effect)
next
  assume stable: "\<forall>h rt h'. py_hasattr py (snd (py_call py h E a rt)) h' E = py_hasattr py rt h' E"
  then have "handlers_reached py E a (candidates s E) (runtime s) =
      filter (\<lambda>m. py_hasattr py (runtime s) (script_module m) E) (candidates s E)"
    by (intro handlers_reached_stable) simp
  then show "calls (dispatch_event py E a s) =
          calls s @ map (\<lambda>m. (m, E))
            (filter (\<lambda>m. py_hasattr py (runtime s) (script_module m) E) (candidates s E))"
    by (simp add: dispatch_event_effect)
next
  assume stable: "\<forall>h rt h'. py_hasattr py (snd (py_call py h E a rt)) h' E = py_hasattr py rt h' E"
  have "run_handlers py E a (candidates s E) (runtime s) =
          fold (\<lambda>m rt. snd (py_call py (script_module m) E a rt))
            (filter (\<lambda>m. py_hasattr py (runtime s) (script_module m) E) (candidates s E))
            (runtime s)"
    using run_handlers_stable [of py E a "candidates s E" "runtime s"] stable by blast
  then show "runtime (dispatch_event py E a s) =
          fold (\<lambda>m rt. snd (py_call py (script_module m) E a rt))
            (filter (\<lambda>m. py_hasattr py (runtime s) (script_module m) E) (candidates s E))
            (runtime s)"
    by (simp add: dispatch_event_effect)
qed

lemma tracing_loaded_state:
  "perform_all tracing_loaded (initial []) =
   \<lparr>module_path = [], loaded_modules = [(''a'', script_a), (''b'', script_b)],
    module_function_cache = [], runtime = [],
    logger = [''ScriptManager::load_script - Script Module Loaded: a'',
              ''ScriptManager::load_script - Script Module Loaded: b''],
    calls = [], scans = 0\<rparr>"
  by (simp add: run_defs tracing_py_def tracing_loaded_def)

lemma tracing_resolved_state:
  "perform_all tracing_resolved (initial []) =
   \<lparr>module_path = [], loaded_modules = [(''a'', script_a), (''b'', script_b)],
    module_function_cache = [(''on_tick'', [script_a, script_b])],
    runtime = [''a'', ''b''],
    logger = [''ScriptManager::load_script - Script Module Loaded: a'',
              ''ScriptManager::load_script - Script Module Loaded: b'',
              ''ScriptManager::dispatch_event - Dispatching event: on_tick'',
              ''ScriptManager::dispatch_event - Dispatching event: on_tick'',
              ''ScriptManager::dispatch_event - Creating function cache for event: on_tick''],
    calls = [(script_a, ''on_tick''), (script_b, ''on_tick'')], scans = 1\<rparr>"
  by (simp add: run_defs tracing_py_def tracing_loaded_def tracing_resolved_def)

theorem dispatch_event_isolation_witness:
  "fst (py_call (tracing_py [''a'']) ''a'' ''on_tick'' 7 []) =
     Some \<lparr>what = ''RuntimeError'', traceback = None\<rparr>
   \<and> candidates (perform_all tracing_loaded (initial [])) ''on_tick'' = [script_a, script_b]
   \<and> runtime (dispatch_event (tracing_py [''a'']) ''on_tick'' 7
                (perform_all tracing_loaded (initial []))) = [''a'', ''b'']
   \<and> calls (dispatch_event (tracing_py [''a'']) ''on_tick'' 7
              (perform_all tracing_loaded (initial []))) =
       [(script_a, ''on_tick''), (script_b, ''on_tick'')]
   \<and> candidates (perform_all tracing_resolved (initial [])) ''on_tick'' = [script_a, script_b]
   \<and> runtime (dispatch_event (tracing_py [''a'']) ''on_tick'' 8
                (perform_all tracing_resolved (initial []))) = [''a'', ''b'', ''a'', ''b'']
   \<and> calls (dispatch_event (tracing_py [''a'']) ''on_tick'' 8
              (perform_all tracing_resolved (initial []))) =
       [(script_a, ''on_tick''), (script_b, ''on_tick''),
        (script_a, ''on_tick''), (script_b, ''on_tick'')]"
proof -
  let ?py = "tracing_py [''a'']"
  let ?miss = "perform_all tracing_loaded (initial [])"
  let ?hit = "perform_all tracing_resolved (initial [])"
  have stable: "\<forall>h rt h'.
      py_hasattr ?py (snd (py_call ?py h ''on_tick'' a rt)) h' ''on_tick'' =
      py_hasattr ?py rt h' ''on_tick''" for a
    by (simp add: tracing_py_def)
  have raises: "fst (py_call ?py ''a'' ''on_tick'' 7 []) =
      Some \<lparr>what = ''RuntimeError'', traceback = None\<rparr>"
    by (simp add: tracing_py_def demo_error_def)
  have cands_miss: "candidates ?miss ''on_tick'' = [script_a, script_b]"
    by (simp add: tracing_loaded_state candidates_def)
  have cands_hit: "candidates ?hit ''on_tick'' = [script_a, script_b]"
    by (simp add: tracing_resolved_state candidates_def)
  have start_miss: "runtime ?miss = []" "calls ?miss = []"
    by (simp_all add: tracing_loaded_state)
  have start_hit: "runtime ?hit = [''a'', ''b'']"
    "calls ?hit = [(script_a, ''on_tick''), (script_b, ''on_tick'')]"
    by (simp_all add: tracing_resolved_state)
  have has: "py_hasattr ?py rt h ''on_tick''" for rt h
    by (simp add: tracing_py_def)
  have ran: "snd (py_call ?py h e a rt) = rt @ [h]" for h e a rt
    by (simp add: tracing_py_def)
  have handles: "script_module script_a = ''a''" "script_module script_b = ''b''"
    by (simp_all add: script_a_def script_b_def)
  from dispatch_event_isolation [of ?py "''on_tick''" 7 ?miss] stable [of 7]
  have "calls (dispatch_event ?py ''on_tick'' 7 ?miss) =
          calls ?miss @ map (\<lambda>m. (m, ''on_tick''))
            (filter (\<lambda>m. py_hasattr ?py (runtime ?miss) (script_module m) ''on_tick'')
               (candidates ?miss ''on_tick''))"
    and "runtime (dispatch_event ?py ''on_tick'' 7 ?miss) =
          fold (\<lambda>m rt. snd (py_call ?py (script_module m) ''on_tick'' 7 rt))
            (filter (\<lambda>m. py_hasattr ?py (runtime ?miss) (script_module m) ''on_tick'')
               (candidates ?miss ''on_tick''))
            (runtime ?miss)"
    by blast+
  then have miss: "calls (dispatch_event ?py ''on_tick'' 7 ?miss) =
          [(script_a, ''on_tick''), (script_b, ''on_tick'')]
      \<and> runtime (dispatch_event ?py ''on_tick'' 7 ?miss) = [''a'', ''b'']"
    by (simp add: cands_miss start_miss has ran handles)
  from dispatch_event_isolation [of ?py "''on_tick''" 8 ?hit] stable [of 8]
  have "calls (dispatch_event ?py ''on_tick'' 8 ?hit) =
          calls ?hit @ map (\<lambda>m. (m, ''on_tick''))
            (filter (\<lambda>m. py_hasattr ?py (runtime ?hit) (script_module m) ''on_tick'')
               (candidates ?hit ''on_tick''))"
    and "runtime (dispatch_event ?py ''on_tick'' 8 ?hit) =
          fold (\<lambda>m rt. snd (py_call ?py (script_module m) ''on_tick'' 8 rt))
            (filter (\<lambda>m. py_hasattr ?py (runtime ?hit) (script_module m) ''on_tick'')
               (candidates ?hit ''on_tick''))
            (runtime ?hit)"
    by blast+
  then have hit: "calls (dispatch_event ?py ''on_tick'' 8 ?hit) =
          [(script_a, ''on_tick''), (script_b, ''on_tick''),
           (script_a, ''on_tick''), (script_b, ''on_tick'')]
      \<and> runtime (dispatch_event ?py ''on_tick'' 8 ?hit) = [''a'', ''b'', ''a'', ''b'']"
    by (simp add: cands_hit start_hit has ran handles)
  from raises cands_miss cands_hit miss hit show ?thesis
    by blast
qed

section \<open>Resolved events stay resolved\<close>

text \<open>
  Claim C6: when the cache holds the event with an empty list, a dispatch of the event
  changes nothing at all: no handler is called, the registry is not traversed, nothing is
  logged, and the cache is as before. And no dispatch, of any event, removes a key of
  the cache.
\<close>

theorem dispatch_event_empty_entry:
  "(map_of (module_function_cache s) E = Some [] \<longrightarrow> dispatch_event py E a s = s)
   \<and> (K \<in> fst ` set (module_function_cache s) \<longrightarrow>
        K \<in> fst ` set (module_function_cache (dispatch_event py E' a' s)))"
proof
  show "map_of (module_function_cache s) E = Some [] \<longrightarrow> dispatch_event py E a s = s"
    by (simp add: dispatch_event_def)
next
  show "K \<in> fst ` set (module_function_cache s) \<longrightarrow>
        K \<in> fst ` set (module_function_cache (dispatch_event py E' a' s))"
  proof (cases "map_of (module_function_cache s) E'")
    case None
    then show ?thesis
      by (simp add: dispatch_event_on_miss Let_def AList.dom_update)
  next
    case (Some cached)
    then show ?thesis
      by (simp add: dispatch_event_on_hit)
  qed
qed

theorem dispatch_event_empty_entry_witness:
  "map_of (module_function_cache (perform_all tick_emptied (initial []))) ''on_tick'' = Some []
   \<and> dispatch_event py_a_edited ''on_tick'' 9 (perform_all tick_emptied (initial [])) =
       perform_all tick_emptied (initial [])
   \<and> ''on_tick'' \<in> fst ` set (module_function_cache (perform_all tick_emptied (initial [])))
   \<and> ''on_tick'' \<in> fst ` set (module_function_cache
         (dispatch_event py_a_edited ''on_join'' 1 (perform_all tick_emptied (initial []))))"
proof -
  let ?s = "perform_all tick_emptied (initial [])"
  have empty: "map_of (module_function_cache ?s) ''on_tick'' = Some []"
    by (simp add: tick_emptied_state)
  have key: "''on_tick'' \<in> fst ` set (module_function_cache ?s)"
    by (simp add: tick_emptied_state)
  from dispatch_event_empty_entry [of ?s "''on_tick''" py_a_edited 9 "''on_tick''" "''on_join''" 1]
    empty key
  show ?thesis
    by blast
qed

section \<open>What a cache miss stores\<close>

text \<open>
  Claim C7: after a dispatch that missed the cache, the cache has the event as a key
  exactly when the list collected during the traversal of the registry is not empty,
  and the entry is then that list. When the list is empty the cache is unchanged, and
  the next dispatch of the event traverses the registry again.
\<close>

theorem dispatch_event_miss_resolution:
  assumes "map_of (module_function_cache s) E = None"
  shows "(E \<in> fst ` set (module_function_cache (dispatch_event py E a s)) \<longleftrightarrow>
            fst (scan_loaded py E a (loaded_modules s) ([], s\<lparr>scans := Suc (scans s)\<rparr>)) \<noteq> [])
       \<and> (fst (scan_loaded py E a (loaded_modules s) ([], s\<lparr>scans := Suc (scans s)\<rparr>)) \<noteq> [] \<longrightarrow>
            map_of (module_function_cache (dispatch_event py E a s)) E =
              Some (fst (scan_loaded py E a (loaded_modules s) ([], s\<lparr>scans := Suc (scans s)\<rparr>))))
       \<and> (fst (scan_loaded py E a (loaded_modules s) ([], s\<lparr>scans := Suc (scans s)\<rparr>)) = [] \<longrightarrow>
            module_function_cache (dispatch_event py E a s) = module_function_cache s
          \<and> scans (dispatch_event py' E a' (dispatch_event py E a s)) =
              Suc (scans (dispatch_event py E a s)))"
proof -
  have absent: "E \<notin> fst ` set (module_function_cache s)"
    using assms by (simp add: map_of_eq_None_iff)
  show ?thesis
    using assms absent
    by (simp add: dispatch_event_on_miss [where py = py] Let_def AList.dom_update AList.update_conv' dispatch_event_on_miss [where py = py'])
qed

theorem dispatch_event_miss_resolution_witness:
  "map_of (module_function_cache (perform_all both_loaded (initial []))) ''on_quit'' = None
   \<and> module_function_cache (dispatch_event py_ok ''on_quit'' 0 (perform_all both_loaded (initial [])))
       = []
   \<and> scans (dispatch_event py_ok ''on_quit'' 1
         (dispatch_event py_ok ''on_quit'' 0 (perform_all both_loaded (initial [])))) = 2
   \<and> map_of (module_function_cache (perform_all both_loaded (initial []))) ''on_join'' = None
   \<and> map_of (module_function_cache
         (dispatch_event py_ok ''on_join'' 0 (perform_all both_loaded (initial [])))) ''on_join''
       = Some [script_b]"
proof -
  let ?s = "perform_all both_loaded (initial [])"
  have miss_quit: "map_of (module_function_cache ?s) ''on_quit'' = None"
    and miss_join: "map_of (module_function_cache ?s) ''on_join'' = None"
    by (simp_all add: both_loaded_state)
  have none: "fst (scan_loaded py_ok ''on_quit'' 0 (loaded_modules ?s)
                     ([], ?s\<lparr>scans := Suc (scans ?s)\<rparr>)) = []"
    by (simp add: both_loaded_state)
       (simp add: call_loaded_def py_ok_def demo_py_def script_a_def script_b_def)
  have one: "fst (scan_loaded py_ok ''on_join'' 0 (loaded_modules ?s)
                     ([], ?s\<lparr>scans := Suc (scans ?s)\<rparr>)) = [script_b]"
    by (simp add: both_loaded_state)
       (simp add: call_loaded_def py_ok_def demo_py_def script_a_def script_b_def
          log_message_def Let_def)
  have counted: "scans (dispatch_event py_ok ''on_quit'' 0 ?s) = 1"
    by (simp add: both_loaded_state) (simp add: run_defs)
  have cache: "module_function_cache ?s = []"
    by (simp add: both_loaded_state)
  from dispatch_event_miss_resolution [OF miss_quit, of py_ok 0 py_ok 1] none counted cache
  have quit: "module_function_cache (dispatch_event py_ok ''on_quit'' 0 ?s) = []
      \<and> scans (dispatch_event py_ok ''on_quit'' 1 (dispatch_event py_ok ''on_quit'' 0 ?s)) = 2"
    by simp
  from dispatch_event_miss_resolution [OF miss_join, of py_ok 0 py_ok 1] one
  have "map_of (module_function_cache (dispatch_event py_ok ''on_join'' 0 ?s)) ''on_join''
          = Some [script_b]"
    by simp
  with quit miss_quit miss_join show ?thesis
    by simp
qed

section \<open>A reload that succeeds\<close>

text \<open>
  Claim C8: when the reload succeeds, every cache entry whose event the reloaded module
  has as an attribute ends with the module's record, and in every entry the records of
  the other modules are the same, in the same order, as before. The entry is what the
  removal loop left, with the record pushed at the back where the attribute exists; the
  keys of the cache and their order do not change.
\<close>

theorem reload_script_success:
  assumes "map_of (loaded_modules s) n = Some script"
    and "py_reload py (script_module script) (runtime s) = (None, rt1)"
    and "map_of (module_function_cache s) E = Some modules"
  shows "map_of (module_function_cache (reload_script py n s)) E =
           Some (if py_hasattr py rt1 (script_module script) E
                 then erase_found (name script) modules @ [script]
                 else erase_found (name script) modules)
       \<and> filter (\<lambda>m. name m \<noteq> name script) (erase_found (name script) modules) =
           filter (\<lambda>m. name m \<noteq> name script) modules
       \<and> map fst (module_function_cache (reload_script py n s)) =
           map fst (module_function_cache s)"
  using assms
  by (simp add: reload_script_def Let_def map_of_add_to_function_cache
        map_of_remove_from_function_cache erase_found_others)

theorem reload_script_success_witness:
  "map_of (loaded_modules (perform_all tick_resolved (initial []))) ''a'' = Some script_a
   \<and> map_of (module_function_cache (perform_all tick_resolved (initial []))) ''on_tick'' =
       Some [script_a, script_b]
   \<and> map_of (module_function_cache
         (reload_script py_ok ''a'' (perform_all tick_resolved (initial [])))) ''on_tick'' =
       Some [script_b, script_a]"
proof -
  let ?s = "perform_all tick_resolved (initial [])"
  have loaded: "map_of (loaded_modules ?s) ''a'' = Some script_a"
    by (simp add: tick_resolved_state)
  have reloaded: "py_reload py_ok (script_module script_a) (runtime ?s) =
      (None, [(''a'', [(''on_tick'', False)]),
              (''b'', [(''on_tick'', False), (''on_join'', False)])])"
    by (simp add: tick_resolved_state) (simp add: py_ok_def demo_py_def script_a_def)
  have entry: "map_of (module_function_cache ?s) ''on_tick'' = Some [script_a, script_b]"
    by (simp add: tick_resolved_state)
  from reload_script_success [OF loaded reloaded entry] loaded entry show ?thesis
    by (simp add: py_ok_def demo_py_def script_a_def script_b_def)
qed

section \<open>An import that fails\<close>

text \<open>
  Claim C9: when the import throws, \<^verbatim>\<open>load_script\<close> logs the error and returns with
  the registry and the cache as they were. (Every operation of the model is a total
  function to the next state: the exception ends in the catch block, which is the branch
  taken here.)
\<close>

theorem load_script_import_error:
  assumes "sys_path_append py (fs_absolute fs (fs_parent_path fs path)) (runtime s) = (None, rt1)"
    and "py_import py (fs_stem fs (fs_relative fs (fs_absolute fs path))) rt1 = (Inl e, rt2)"
  shows "loaded_modules (load_script fs py path s) = loaded_modules s
       \<and> module_function_cache (load_script fs py path s) = module_function_cache s
       \<and> module_path (load_script fs py path s) = module_path s
       \<and> calls (load_script fs py path s) = calls s
       \<and> logger (load_script fs py path s) =
           logger s @ (''ScriptManager::load_script - Script Error.\<newline>'' @ what e) #
             (case traceback e of None \<Rightarrow> [] | Some tb \<Rightarrow> [''Trace:\<newline>'' @ tb])"
  using assms by (simp add: load_script_def Let_def logger_catch_error)

theorem load_script_import_error_witness:
  "loaded_modules (load_script (demo_fs demo_files) py_c_broken ''scripts/c.py''
      (perform_all tick_resolved (initial []))) = [(''a'', script_a), (''b'', script_b)]
   \<and> module_function_cache (load_script (demo_fs demo_files) py_c_broken ''scripts/c.py''
      (perform_all tick_resolved (initial []))) = [(''on_tick'', [script_a, script_b])]
   \<and> last (logger (load_script (demo_fs demo_files) py_c_broken ''scripts/c.py''
      (perform_all tick_resolved (initial [])))) =
        ''ScriptManager::load_script - Script Error.\<newline>SyntaxError''"
proof -
  let ?s = "perform_all tick_resolved (initial [])"
  have path: "sys_path_append py_c_broken
      (fs_absolute (demo_fs demo_files) (fs_parent_path (demo_fs demo_files) ''scripts/c.py''))
      (runtime ?s) = (None, runtime ?s)"
    by (simp add: py_c_broken_def demo_py_def)
  have imp: "py_import py_c_broken
      (fs_stem (demo_fs demo_files)
         (fs_relative (demo_fs demo_files) (fs_absolute (demo_fs demo_files) ''scripts/c.py'')))
      (runtime ?s) = (Inl (demo_error ''SyntaxError''), runtime ?s)"
    by (simp add: tick_resolved_state py_c_broken_def demo_py_def demo_fs_def base_name_def)
  from load_script_import_error [OF path imp] show ?thesis
    by (simp add: tick_resolved_state demo_error_def)
qed

section \<open>The cache-hit branch iterates over a copy\<close>

lemma same_but_cache_refl [simp]: "same_but_cache s s"
  by (simp add: same_but_cache_def)

lemma same_but_cache_set_cache [simp]:
  "same_but_cache s (t\<lparr>module_function_cache := c\<rparr>) = same_but_cache s t"
  "same_but_cache (s\<lparr>module_function_cache := c\<rparr>) t = same_but_cache s t"
  by (simp_all add: same_but_cache_def)

lemma same_but_cache_catch_error:
  "same_but_cache s t \<Longrightarrow> same_but_cache (catch_error msg e s) (catch_error msg e t)"
  by (simp add: same_but_cache_def logger_catch_error)

lemma same_but_cache_log_message:
  "same_but_cache s t \<Longrightarrow> same_but_cache (log_message msg s) (log_message msg t)"
  by (simp add: same_but_cache_def)

lemma same_but_cache_call_cached:
  assumes rel: "same_but_cache s t"
    and cb: "\<And>u v. same_but_cache u v \<Longrightarrow> same_but_cache (f m u) (g m v)"
  shows "same_but_cache (call_cached py f E a m s) (call_cached py g E a m t)"
proof (cases "py_hasattr py (runtime s) (script_module m) E")
  case False
  with rel show ?thesis
    by (simp add: call_cached_def same_but_cache_def)
next
  case True
  obtain r rt1 where call: "py_call py (script_module m) E a (runtime s) = (r, rt1)"
    by (cases "py_call py (script_module m) E a (runtime s)")
  let ?msg = "''ScriptManager::dispatch_event - Dispatching cached event: '' @ E"
  let ?s1 = "log_message ?msg s" and ?t1 = "log_message ?msg t"
  have "same_but_cache (?s1\<lparr>runtime := rt1, calls := calls ?s1 @ [(m, E)]\<rparr>)
          (?t1\<lparr>runtime := rt1, calls := calls ?t1 @ [(m, E)]\<rparr>)"
    using rel by (simp add: same_but_cache_def)
  then have after: "same_but_cache (f m (?s1\<lparr>runtime := rt1, calls := calls ?s1 @ [(m, E)]\<rparr>))
          (g m (?t1\<lparr>runtime := rt1, calls := calls ?t1 @ [(m, E)]\<rparr>))"
    by (rule cb)
  have rt: "runtime t = runtime s"
    using rel by (simp add: same_but_cache_def)
  show ?thesis
  proof (cases r)
    case None
    with after show ?thesis
      by (simp add: call_cached_def Let_def True rt call)
  next
    case (Some e)
    with same_but_cache_catch_error [OF after] show ?thesis
      by (simp add: call_cached_def Let_def True rt call)
  qed
qed

lemma same_but_cache_dispatch_cached:
  assumes rel: "same_but_cache s t"
    and cb: "\<And>m u v. same_but_cache u v \<Longrightarrow> same_but_cache (f m u) (g m v)"
  shows "same_but_cache (dispatch_cached py f E a ms s) (dispatch_cached py g E a ms t)"
  using rel
proof (induction ms arbitrary: s t)
  case Nil
  then show ?case by simp
next
  case (Cons m ms)
  have "same_but_cache (call_cached py f E a m s) (call_cached py g E a m t)"
    using Cons.prems cb by (rule same_but_cache_call_cached)
  from Cons.IH [OF this] show ?case by simp
qed

lemma same_but_cache_reload_script:
  assumes "same_but_cache s t"
  shows "same_but_cache (reload_script py n s) (reload_script py n t)"
proof -
  have eq: "loaded_modules t = loaded_modules s" "runtime t = runtime s"
    using assms by (simp_all add: same_but_cache_def)
  show ?thesis
  proof (cases "map_of (loaded_modules s) n")
    case None
    with assms show ?thesis
      by (simp add: reload_script_def eq same_but_cache_log_message)
  next
    case (Some script)
    obtain r rt1 where reload: "py_reload py (script_module script) (runtime s) = (r, rt1)"
      by (cases "py_reload py (script_module script) (runtime s)")
    have base: "same_but_cache (s\<lparr>runtime := rt1\<rparr>) (t\<lparr>runtime := rt1\<rparr>)"
      using assms by (simp add: same_but_cache_def)
    show ?thesis
    proof (cases r)
      case None
      with base show ?thesis
        by (simp add: reload_script_def Some eq Let_def reload same_but_cache_def)
    next
      case failed: (Some e)
      with base show ?thesis
        by (simp add: reload_script_def Some eq Let_def reload same_but_cache_def
              logger_catch_error)
    qed
  qed
qed

text \<open>
  Claim C10: a dispatch that hits the cache goes through the copy of the entry taken
  when it begins, so what handlers do to the cache while the dispatch runs does not
  change which handlers it calls. Here \<open>reenter\<close> is any callback into the manager whose
  effect outside the cache does not depend on the cache, as is the case for
  \<^verbatim>\<open>reload_script\<close> (\<open>same_but_cache_reload_script\<close>). The dispatch then calls the
  same handlers, and leaves the same state outside the cache, as the dispatch in which
  every change the callbacks make to the cache is undone at once. Without callbacks the
  loop over the copy is the cache-hit branch of \<^verbatim>\<open>dispatch_event\<close>.
\<close>

theorem dispatch_cached_snapshot:
  assumes "map_of (module_function_cache s) E = Some cached_function_modules"
    and "\<forall>m u v. same_but_cache u v \<longrightarrow> same_but_cache (reenter m u) (reenter m v)"
  shows "same_but_cache
           (dispatch_cached py reenter E a cached_function_modules s)
           (dispatch_cached py
              (\<lambda>m u. (reenter m u)\<lparr>module_function_cache := module_function_cache s\<rparr>)
              E a cached_function_modules s)
       \<and> calls (dispatch_cached py reenter E a cached_function_modules s) =
           calls (dispatch_cached py
              (\<lambda>m u. (reenter m u)\<lparr>module_function_cache := module_function_cache s\<rparr>)
              E a cached_function_modules s)
       \<and> dispatch_cached py (\<lambda>m u. u) E a cached_function_modules s = dispatch_event py E a s"
proof -
  have "same_but_cache
           (dispatch_cached py reenter E a cached_function_modules s)
           (dispatch_cached py
              (\<lambda>m u. (reenter m u)\<lparr>module_function_cache := module_function_cache s\<rparr>)
              E a cached_function_modules s)"
    by (rule same_but_cache_dispatch_cached) (simp_all add: assms(2))
  then show ?thesis
    by (simp add: same_but_cache_def dispatch_event_on_hit [OF assms(1)])
qed

lemma handler_reloads_a_same_but_cache:
  "same_but_cache u v \<Longrightarrow> same_but_cache (handler_reloads_a m u) (handler_reloads_a m v)"
  by (simp add: handler_reloads_a_def same_but_cache_reload_script)

theorem dispatch_cached_snapshot_witness:
  "map_of (module_function_cache (perform_all tick_resolved (initial []))) ''on_tick'' =
     Some [script_a, script_b]
   \<and> calls (dispatch_cached py_ok handler_reloads_a ''on_tick'' 8 [script_a, script_b]
        (perform_all tick_resolved (initial []))) =
     calls (perform_all tick_resolved (initial []))
       @ [(script_a, ''on_tick''), (script_b, ''on_tick'')]
   \<and> module_function_cache
       (dispatch_cached py_ok handler_reloads_a ''on_tick'' 8 [script_a, script_b]
          (perform_all tick_resolved (initial []))) =
     [(''on_tick'', [script_b, script_a])]"
proof -
  let ?s = "perform_all tick_resolved (initial [])"
  have hit: "map_of (module_function_cache ?s) ''on_tick'' = Some [script_a, script_b]"
    by (simp add: tick_resolved_state)
  have oblivious: "\<forall>m u v. same_but_cache u v \<longrightarrow>
      same_but_cache (handler_reloads_a m u) (handler_reloads_a m v)"
    by (simp add: handler_reloads_a_same_but_cache)
  have frozen: "calls (dispatch_cached py_ok
        (\<lambda>m u. (handler_reloads_a m u)\<lparr>module_function_cache := module_function_cache ?s\<rparr>)
        ''on_tick'' 8 [script_a, script_b] ?s) =
      calls ?s @ [(script_a, ''on_tick''), (script_b, ''on_tick'')]"
    by (simp add: tick_resolved_state)
       (simp add: run_defs handler_reloads_a_def)
  have mutated: "module_function_cache
       (dispatch_cached py_ok handler_reloads_a ''on_tick'' 8 [script_a, script_b] ?s) =
     [(''on_tick'', [script_b, script_a])]"
    by (simp add: tick_resolved_state)
       (simp add: run_defs handler_reloads_a_def)
  from dispatch_cached_snapshot [OF hit oblivious, of py_ok 8] frozen mutated hit
  show ?thesis
    by simp
qed

end
